theory Spec2Isabelle
  imports Main "HOL-Library.Product_Lexorder"
begin

section \<open>TaskFlow: a file-persisted task queue\<close>

text \<open>
  A shallow embedding of the store, the claimer, the completion and failure transitions
  and the dead-task requeue of the TaskFlow command-line tool. The repository holds two
  versions of the program: \<^verbatim>\<open>src/taskflow.js\<close> and \<^verbatim>\<open>src/unnamed/part_001\<close> (the one with
  the worker pool). Their \<^verbatim>\<open>loadData\<close>, \<^verbatim>\<open>saveData\<close>, \<^verbatim>\<open>addTaskObject\<close>, \<^verbatim>\<open>claimTask\<close>,
  \<^verbatim>\<open>markDone\<close> and \<^verbatim>\<open>dead retry\<close> are the same code; \<^verbatim>\<open>markFailed\<close> differs in one
  comparison and is embedded twice.

  Modelling decisions.
  \<^item> JavaScript values are given the types of the data model: counters are natural
    numbers, exit codes and the backoff base are integers, texts are strings. An optional
    field is an \<open>option\<close>; \<open>None\<close> stands for \<^verbatim>\<open>null\<close> and for \<^verbatim>\<open>undefined\<close>.
    Where the source tests truthiness (\<^verbatim>\<open>x || d\<close>, \<^verbatim>\<open>!x\<close>) the falsy values of the
    type (\<open>0\<close>, the empty string) are treated as the source treats them.
  \<^item> A timestamp is the instant it denotes, in milliseconds since the epoch; the source
    holds it as the string \<^verbatim>\<open>toISOString\<close> prints and compares the strings. A reading of
    the clock (\<open>clock\<close>) is a natural number: the clock does not run before 1970.
    \<open>created_at\<close> and \<open>updated_at\<close> are readings of the clock, or values given in a
    payload or a legacy file in their place; \<open>next_run_at\<close> is any instant, since a
    negative base puts it in the past. The strings of the years \<open>0000\<close> to \<open>9999\<close>
    start with a digit and are ordered as their instants are; from the year \<open>10000\<close> on
    the string starts with \<^verbatim>\<open>+\<close>, before the year \<open>0000\<close> with \<^verbatim>\<open>-\<close>. The two
    comparisons of the source, \<^verbatim>\<open><=\<close> and \<^verbatim>\<open>localeCompare\<close>, are embedded as the order
    of these strings (\<open>iso_le\<close>, \<open>created_key\<close>), not as the order of the instants.
  \<^item> Numbers are integers and the arithmetic is exact, \<^verbatim>\<open>Math.pow\<close> being
    exponentiation. \<^verbatim>\<open>toISOString\<close> throws a \<^verbatim>\<open>RangeError\<close> for an instant outside the
    range of \<^verbatim>\<open>Date\<close>, 8.64e15 milliseconds on either side of the epoch; that is a
    branch of \<open>markFailed\<close>. Inside the range every number is below \<open>2 ^ 53\<close>, where
    doubles are exact, and while the clock is of a year of four digits a sum that exact
    arithmetic puts outside the range is outside it in doubles as well.
  \<^item> The clock is read through parameters, one for each reading in program order;
    the identifier \<^verbatim>\<open>uuidv4()\<close> would generate is a parameter as well.
  \<^item> The backing file is a value of type \<open>data_file\<close>; a \<open>disk\<close> is its content together
    with the number of writes \<^verbatim>\<open>saveData\<close> has made, so that a write of equal content
    is still visible.
\<close>

subsection \<open>Data model\<close>

type_synonym clock = nat

type_synonym instant = int

record task =
  task_id :: string
  command :: string
  state :: string
  attempts :: nat
  max_retries :: nat
  created_at :: "clock option"
  updated_at :: "clock option"
  next_run_at :: "instant option"
  last_error :: "string option"
  exit_code :: "int option"

text \<open>A job of the legacy schema, as it is read from the file.\<close>

record job =
  j_id :: string
  j_command :: string
  j_state :: "string option"
  j_attempts :: "nat option"
  j_max_retries :: "nat option"
  j_created_at :: "clock option"
  j_updated_at :: "clock option"
  j_next_attempt_at :: "instant option"
  j_last_error :: "string option"
  j_exit_code :: "int option"

text \<open>The parsed payload of \<^verbatim>\<open>add\<close>: every field may be missing.\<close>

record payload =
  p_id :: "string option"
  p_command :: "string option"
  p_state :: "string option"
  p_attempts :: "nat option"
  p_max_retries :: "nat option"
  p_created_at :: "clock option"
  p_updated_at :: "clock option"
  p_next_run_at :: "instant option"
  p_last_error :: "string option"
  p_exit_code :: "int option"

record config =
  conf_max_retries :: "nat option"
  conf_backoff_base :: "int option"

record snapshot =
  tasks :: "task list"
  config :: config

text \<open>
  What \<^verbatim>\<open>loadData\<close> can find at \<^verbatim>\<open>DATA_FILE\<close>: no file; a file that does not parse or
  has neither array (\<open>Unusable\<close>); an object with a \<^verbatim>\<open>jobs\<close> array; an object with a
  \<^verbatim>\<open>tasks\<close> array. The \<^verbatim>\<open>jobs\<close> test comes first in the source, so an object with both
  arrays is a \<open>Legacy\<close> one. The second argument is the \<^verbatim>\<open>config\<close> member when it is an
  object, \<open>None\<close> otherwise.
\<close>

datatype data_file =
    Absent
  | Unusable
  | Legacy "job list" "config option"
  | Canonical "task list" "config option"

record disk =
  content :: data_file
  writes :: nat

text \<open>
  What the source raises: the \<^verbatim>\<open>Error\<close> of \<^verbatim>\<open>addTaskObject\<close> for a payload without a
  command, and the \<^verbatim>\<open>RangeError\<close> of \<^verbatim>\<open>toISOString\<close> in \<^verbatim>\<open>markFailed\<close>.
\<close>

datatype error = MissingCommand | RangeError

subsection \<open>Constants and helpers\<close>

definition DEFAULT_max_retries :: nat where
  "DEFAULT_max_retries = 3"

definition DEFAULT_backoff_base :: int where
  "DEFAULT_backoff_base = 2"

text \<open>
  The first instant of the year \<open>10000\<close>, \<^verbatim>\<open>+010000-01-01T00:00:00.000Z\<close>, and the
  largest instant a \<^verbatim>\<open>Date\<close> holds.
\<close>

definition year_10000 :: instant where
  "year_10000 = 253402300800000"

definition MAX_DATE :: instant where
  "MAX_DATE = 8640000000000000"

definition DEFAULT_CONF :: config where
  "DEFAULT_CONF = \<lparr>conf_max_retries = Some DEFAULT_max_retries,
                    conf_backoff_base = Some DEFAULT_backoff_base\<rparr>"

definition empty_dataset :: snapshot where
  "empty_dataset = \<lparr>tasks = [], config = DEFAULT_CONF\<rparr>"

text \<open>\<^verbatim>\<open>s || null\<close> on a string: the empty string is falsy.\<close>

fun truthy_str :: "string option \<Rightarrow> string option" where
  "truthy_str None = None"
| "truthy_str (Some s) = (if s = [] then None else Some s)"

text \<open>\<^verbatim>\<open>n || null\<close> on a number: zero is falsy.\<close>

fun truthy_int :: "int option \<Rightarrow> int option" where
  "truthy_int None = None"
| "truthy_int (Some n) = (if n = 0 then None else Some n)"

text \<open>
  \<^verbatim>\<open>Array.prototype.findIndex\<close>; \<open>None\<close> is the source's \<open>-1\<close>. \<^verbatim>\<open>find\<close> returns the
  element at that index by reference, so the assignments that follow a \<^verbatim>\<open>find\<close> in the
  source are updates of the list at this index.
\<close>

fun findIndex :: "('a \<Rightarrow> bool) \<Rightarrow> 'a list \<Rightarrow> nat option" where
  "findIndex P [] = None"
| "findIndex P (x # xs) = (if P x then Some 0 else map_option Suc (findIndex P xs))"

fun is_legacy :: "data_file \<Rightarrow> bool" where
  "is_legacy (Legacy jobs c) = True"
| "is_legacy f = False"

subsection \<open>Store: \<^verbatim>\<open>saveData\<close> and \<^verbatim>\<open>loadData\<close>\<close>

definition saveData :: "snapshot \<Rightarrow> disk \<Rightarrow> disk" where
  "saveData data d =
     \<lparr>content = Canonical (tasks data) (Some (config data)), writes = writes d + 1\<rparr>"

text \<open>The state of a legacy job, renamed; an unknown name is kept, a missing one is \<open>waiting\<close>.\<close>

definition migrate_state :: "string option \<Rightarrow> string" where
  "migrate_state s =
     (if s = Some ''pending'' then ''waiting''
      else if s = Some ''processing'' then ''running''
      else if s = Some ''completed'' then ''done''
      else if s = Some ''dead'' then ''failed''
      else (case truthy_str s of Some x \<Rightarrow> x | None \<Rightarrow> ''waiting''))"

definition migrate_job :: "job \<Rightarrow> task" where
  "migrate_job j =
     \<lparr>task_id = j_id j,
      command = j_command j,
      state = migrate_state (j_state j),
      attempts = (case j_attempts j of Some a \<Rightarrow> a | None \<Rightarrow> 0),
      max_retries = (case j_max_retries j of Some m \<Rightarrow> m | None \<Rightarrow> DEFAULT_max_retries),
      created_at = j_created_at j,
      updated_at = j_updated_at j,
      next_run_at = j_next_attempt_at j,
      last_error = truthy_str (j_last_error j),
      exit_code = truthy_int (j_exit_code j)\<rparr>"

text \<open>
  \<^verbatim>\<open>loadData\<close> returns the snapshot and the disk as it leaves it: only the legacy branch
  writes. The missing and the unusable file give the empty dataset and are left alone.
\<close>

definition loadData :: "disk \<Rightarrow> snapshot \<times> disk" where
  "loadData d =
     (case content d of
        Absent \<Rightarrow> (empty_dataset, d)
      | Unusable \<Rightarrow> (empty_dataset, d)
      | Legacy jobs c \<Rightarrow>
          (let migrated = \<lparr>tasks = map migrate_job jobs,
                            config = (case c of Some cf \<Rightarrow> cf | None \<Rightarrow> DEFAULT_CONF)\<rparr>
           in (migrated, saveData migrated d))
      | Canonical ts c \<Rightarrow>
          (\<lparr>tasks = ts, config = (case c of Some cf \<Rightarrow> cf | None \<Rightarrow> DEFAULT_CONF)\<rparr>, d))"

definition initData :: "disk \<Rightarrow> disk" where
  "initData d = (if content d = Absent then saveData empty_dataset d else d)"

text \<open>The tasks a load returns: the logical content of the store.\<close>

definition stored_tasks :: "disk \<Rightarrow> task list" where
  "stored_tasks d = tasks (fst (loadData d))"

subsection \<open>\<^verbatim>\<open>addTaskObject\<close>\<close>

text \<open>
  \<open>fresh\<close> is the identifier \<^verbatim>\<open>uuidv4()\<close> returns when the payload has none; \<open>now\<close> is the
  one reading of the clock. A payload that is not an object has no \<^verbatim>\<open>command\<close> and is
  refused like one whose command is missing or empty; the refusal comes before the load.
\<close>

definition new_entry :: "payload \<Rightarrow> string \<Rightarrow> string \<Rightarrow> clock \<Rightarrow> config \<Rightarrow> task" where
  "new_entry p i cmd now cf =
     \<lparr>task_id = i,
      command = cmd,
      state = (case truthy_str (p_state p) of Some s \<Rightarrow> s | None \<Rightarrow> ''waiting''),
      attempts = (case p_attempts p of Some a \<Rightarrow> a | None \<Rightarrow> 0),
      max_retries =
        (case p_max_retries p of
           Some m \<Rightarrow> m
         | None \<Rightarrow> (case conf_max_retries cf of Some m \<Rightarrow> m | None \<Rightarrow> DEFAULT_max_retries)),
      created_at = (case p_created_at p of Some t \<Rightarrow> Some t | None \<Rightarrow> Some now),
      updated_at = (case p_updated_at p of Some t \<Rightarrow> Some t | None \<Rightarrow> Some now),
      next_run_at = p_next_run_at p,
      last_error = truthy_str (p_last_error p),
      exit_code = truthy_int (p_exit_code p)\<rparr>"

definition addTaskObject :: "payload \<Rightarrow> string \<Rightarrow> clock \<Rightarrow> disk \<Rightarrow> error + (string \<times> disk)" where
  "addTaskObject p fresh now d =
     (case truthy_str (p_command p) of
        None \<Rightarrow> Inl MissingCommand
      | Some cmd \<Rightarrow>
          (let (data, d1) = loadData d;
               i = (case truthy_str (p_id p) of Some x \<Rightarrow> x | None \<Rightarrow> fresh);
               entry = new_entry p i cmd now (config data)
           in case findIndex (\<lambda>t. task_id t = i) (tasks data) of
                Some idx \<Rightarrow> Inr (i, saveData (data\<lparr>tasks := (tasks data)[idx := entry]\<rparr>) d1)
              | None \<Rightarrow> Inr (i, saveData (data\<lparr>tasks := tasks data @ [entry]\<rparr>) d1)))"

subsection \<open>\<^verbatim>\<open>claimTask\<close>\<close>

text \<open>
  \<^verbatim>\<open>t.next_run_at <= now\<close> compares two strings of \<^verbatim>\<open>toISOString\<close> by their code
  units; \<open>now\<close> is a reading of the clock. While the clock is before the year
  \<open>10000\<close> its string starts with a digit: a \<open>next_run_at\<close> from the year \<open>10000\<close> on
  starts with \<^verbatim>\<open>+\<close>, which is below every digit, and compares as due; one before the
  year \<open>0000\<close> starts with \<^verbatim>\<open>-\<close>, below every digit too, and is in the past anyway;
  the others are ordered as the instants. Once the clock is in the year \<open>10000\<close> or
  later its string starts with \<^verbatim>\<open>+\<close>, which is below \<^verbatim>\<open>-\<close> and the digits: only a
  \<open>next_run_at\<close> that starts with \<^verbatim>\<open>+\<close> as well can be below it, and those are six-digit
  years, ordered as the instants.
\<close>

definition iso_le :: "instant \<Rightarrow> clock \<Rightarrow> bool" where
  "iso_le r now =
     (if int now < year_10000 then year_10000 \<le> r \<or> r \<le> int now
      else year_10000 \<le> r \<and> r \<le> int now)"

text \<open>
  The predicate of the filter in \<^verbatim>\<open>claimTask\<close>:
  \<^verbatim>\<open>t.state === 'waiting' && (!t.next_run_at || t.next_run_at <= now)\<close>.
\<close>

definition eligible :: "clock \<Rightarrow> task \<Rightarrow> bool" where
  "eligible now t =
     (state t = ''waiting'' \<and> (case next_run_at t of None \<Rightarrow> True | Some r \<Rightarrow> iso_le r now))"

text \<open>
  Eligibility in the words of the specification: the state is \<open>waiting\<close> and
  \<open>next_run_at\<close> is absent or not after the current time. It is the order of the
  instants that is meant here, and it is used in statements only, never by the code.
\<close>

definition spec_eligible :: "clock \<Rightarrow> task \<Rightarrow> bool" where
  "spec_eligible now t =
     (state t = ''waiting'' \<and> (case next_run_at t of None \<Rightarrow> True | Some r \<Rightarrow> r \<le> int now))"

text \<open>
  The key of \<^verbatim>\<open>(a.created_at || '').localeCompare(b.created_at || '')\<close>: the empty
  string of a missing \<open>created_at\<close> comes first; a string that starts with \<^verbatim>\<open>+\<close> (the
  year \<open>10000\<close> or later) comes before every string that starts with a digit, since
  a collation puts the symbols before the digits; within either group the strings have
  the same layout and are ordered digit by digit, as the instants are.
\<close>

definition created_key :: "clock option \<Rightarrow> nat \<times> nat" where
  "created_key c =
     (case c of
        None \<Rightarrow> (0, 0)
      | Some c \<Rightarrow> (if year_10000 \<le> int c then (1, c) else (2, c)))"

text \<open>
  The candidates are kept with their positions in \<^verbatim>\<open>data.tasks\<close>: \<^verbatim>\<open>available[0]\<close> is the
  very object of the array, and assigning to it changes the array at that position.
  \<^verbatim>\<open>Array.prototype.sort\<close> is stable; \<open>sort_key\<close> is the stable insertion sort. \<open>now\<close>
  is the clock read for the filter, \<open>now2\<close> the one read for \<^verbatim>\<open>updated_at\<close>.
\<close>

definition claimTask :: "clock \<Rightarrow> clock \<Rightarrow> disk \<Rightarrow> task option \<times> disk" where
  "claimTask now now2 d =
     (let (data, d1) = loadData d;
          available = sort_key (\<lambda>(i, t). created_key (created_at t))
                        (filter (\<lambda>(i, t). eligible now t) (enumerate 0 (tasks data)))
      in case available of
           [] \<Rightarrow> (None, d1)
         | (i, t) # rest \<Rightarrow>
             (let t' = t\<lparr>state := ''running'', updated_at := Some now2\<rparr>
              in (Some t', saveData (data\<lparr>tasks := (tasks data)[i := t']\<rparr>) d1)))"

subsection \<open>\<^verbatim>\<open>markDone\<close> and \<^verbatim>\<open>markFailed\<close>\<close>

definition markDone :: "string \<Rightarrow> clock \<Rightarrow> disk \<Rightarrow> disk" where
  "markDone i now d =
     (let (data, d1) = loadData d
      in case findIndex (\<lambda>t. task_id t = i) (tasks data) of
           None \<Rightarrow> d1
         | Some k \<Rightarrow>
             saveData (data\<lparr>tasks := (tasks data)
                [k := (tasks data ! k)\<lparr>state := ''done'', exit_code := Some 0,
                                         updated_at := Some now\<rparr>]\<rparr>) d1)"

text \<open>
  \<^verbatim>\<open>Number(base || data.config.backoff_base || DEFAULT_CONF.backoff_base)\<close>: a base of
  zero is falsy, and so is a configured base of zero.
\<close>

definition backoff_base_of :: "int \<Rightarrow> config \<Rightarrow> int" where
  "backoff_base_of base cf =
     (if base \<noteq> 0 then base
      else (case truthy_int (conf_backoff_base cf) of
              Some b \<Rightarrow> b
            | None \<Rightarrow> DEFAULT_backoff_base))"

text \<open>
  \<^verbatim>\<open>markFailed\<close> of \<^verbatim>\<open>src/unnamed/part_001\<close>. The parameter \<open>maxRetries\<close> is not read:
  the ceiling is the stored \<^verbatim>\<open>t.max_retries\<close>. \<open>tnow\<close> is \<^verbatim>\<open>Date.now()\<close>, in
  milliseconds; \<open>stamp\<close> is the \<^verbatim>\<open>timestamp()\<close> read for \<^verbatim>\<open>updated_at\<close>. The result is
  the error raised, if any, and the disk as the call leaves it. When
  \<^verbatim>\<open>Date.now() + delay * 1000\<close> is outside the range of \<^verbatim>\<open>Date\<close>, \<^verbatim>\<open>toISOString\<close> throws:
  the call ends there, before \<^verbatim>\<open>saveData\<close>, and what it had assigned to the task in
  memory is lost.
\<close>

definition markFailed ::
  "string \<Rightarrow> nat \<Rightarrow> nat \<Rightarrow> int \<Rightarrow> string \<Rightarrow> int \<Rightarrow> clock \<Rightarrow> clock \<Rightarrow> disk
     \<Rightarrow> error option \<times> disk" where
  "markFailed i atts maxRetries code err base tnow stamp d =
     (let (data, d1) = loadData d
      in case findIndex (\<lambda>t. task_id t = i) (tasks data) of
           None \<Rightarrow> (None, d1)
         | Some k \<Rightarrow>
             (let t = (tasks data ! k)\<lparr>attempts := atts + 1, last_error := Some err,
                                         exit_code := Some code\<rparr>
              in if attempts t \<ge> max_retries t
                 then (None,
                       saveData (data\<lparr>tasks := (tasks data)
                          [k := t\<lparr>state := ''failed'', updated_at := Some stamp\<rparr>]\<rparr>) d1)
                 else (let delay = backoff_base_of base (config data) ^ attempts t;
                           run_at = int tnow + delay * 1000
                       in if \<bar>run_at\<bar> \<le> MAX_DATE
                          then (None,
                                saveData (data\<lparr>tasks := (tasks data)
                                   [k := t\<lparr>next_run_at := Some run_at, state := ''waiting'',
                                          updated_at := Some stamp\<rparr>]\<rparr>) d1)
                          else (Some RangeError, d1))))"

text \<open>\<^verbatim>\<open>markFailed\<close> of \<^verbatim>\<open>src/taskflow.js\<close>: the test is \<^verbatim>\<open>t.attempts > t.max_retries\<close>.\<close>

definition markFailed_taskflow ::
  "string \<Rightarrow> nat \<Rightarrow> nat \<Rightarrow> int \<Rightarrow> string \<Rightarrow> int \<Rightarrow> clock \<Rightarrow> clock \<Rightarrow> disk
     \<Rightarrow> error option \<times> disk" where
  "markFailed_taskflow i atts maxRetries code err base tnow stamp d =
     (let (data, d1) = loadData d
      in case findIndex (\<lambda>t. task_id t = i) (tasks data) of
           None \<Rightarrow> (None, d1)
         | Some k \<Rightarrow>
             (let t = (tasks data ! k)\<lparr>attempts := atts + 1, last_error := Some err,
                                         exit_code := Some code\<rparr>
              in if attempts t > max_retries t
                 then (None,
                       saveData (data\<lparr>tasks := (tasks data)
                          [k := t\<lparr>state := ''failed'', updated_at := Some stamp\<rparr>]\<rparr>) d1)
                 else (let delay = backoff_base_of base (config data) ^ attempts t;
                           run_at = int tnow + delay * 1000
                       in if \<bar>run_at\<bar> \<le> MAX_DATE
                          then (None,
                                saveData (data\<lparr>tasks := (tasks data)
                                   [k := t\<lparr>next_run_at := Some run_at, state := ''waiting'',
                                          updated_at := Some stamp\<rparr>]\<rparr>) d1)
                          else (Some RangeError, d1))))"

subsection \<open>\<^verbatim>\<open>dead retry <id>\<close>\<close>

text \<open>
  The action returns the exit code of the process with the disk: \<open>1\<close> is
  \<^verbatim>\<open>process.exit(1)\<close>, \<open>0\<close> the normal end.
\<close>

definition dead_retry :: "string \<Rightarrow> clock \<Rightarrow> disk \<Rightarrow> nat \<times> disk" where
  "dead_retry i now d =
     (let (data, d1) = loadData d
      in case findIndex (\<lambda>t. task_id t = i \<and> state t = ''failed'') (tasks data) of
           None \<Rightarrow> (1, d1)
         | Some k \<Rightarrow>
             (0, saveData (data\<lparr>tasks := (tasks data)
                   [k := (tasks data ! k)\<lparr>state := ''waiting'', attempts := 0,
                                            next_run_at := None, updated_at := Some now\<rparr>]\<rparr>) d1))"

subsection \<open>Repeated claims\<close>


subsection \<open>Example stores\<close>

definition task_a :: task where
  "task_a = \<lparr>task_id = ''a'', command = ''echo a'', state = ''waiting'', attempts = 0,
     max_retries = 3, created_at = Some 5, updated_at = Some 5, next_run_at = None,
     last_error = None, exit_code = None\<rparr>"

definition task_b :: task where
  "task_b = \<lparr>task_id = ''b'', command = ''echo b'', state = ''waiting'', attempts = 0,
     max_retries = 3, created_at = Some 3, updated_at = Some 3, next_run_at = None,
     last_error = None, exit_code = None\<rparr>"

definition task_c :: task where
  "task_c = \<lparr>task_id = ''c'', command = ''echo c'', state = ''waiting'', attempts = 0,
     max_retries = 3, created_at = Some 3, updated_at = Some 4, next_run_at = None,
     last_error = None, exit_code = None\<rparr>"

definition task_f :: task where
  "task_f = \<lparr>task_id = ''f'', command = ''false'', state = ''failed'', attempts = 3,
     max_retries = 3, created_at = Some 1, updated_at = Some 9, next_run_at = Some 8,
     last_error = Some ''Exit 1'', exit_code = Some 1\<rparr>"


text \<open>
  A task that has failed 37 times, with room for more, and the store after its next
  failure is scored with base \<open>2\<close>: the retry is due \<open>2 ^ 38\<close> seconds later, in a year
  of five digits.
\<close>

definition task_r :: task where
  "task_r = \<lparr>task_id = ''r'', command = ''false'', state = ''running'', attempts = 37,
     max_retries = 50, created_at = Some 1, updated_at = Some 900, next_run_at = None,
     last_error = Some ''Exit 1'', exit_code = Some 1\<rparr>"

definition store_abc :: disk where
  "store_abc = \<lparr>content = Canonical [task_a, task_b, task_c] (Some DEFAULT_CONF), writes = 0\<rparr>"

definition store_af :: disk where
  "store_af = \<lparr>content = Canonical [task_a, task_f] (Some DEFAULT_CONF), writes = 0\<rparr>"


definition store_retry :: disk where
  "store_retry = \<lparr>content = Canonical [task_r, task_a] (Some DEFAULT_CONF), writes = 0\<rparr>"

definition store_far :: disk where
  "store_far = snd (markFailed ''r'' 37 50 1 ''Exit 1'' 2 1000 1001 store_retry)"

definition job_done :: job where
  "job_done = \<lparr>j_id = ''j1'', j_command = ''true'', j_state = Some ''completed'',
     j_attempts = Some 1, j_max_retries = Some 3, j_created_at = Some 1, j_updated_at = Some 2,
     j_next_attempt_at = None, j_last_error = None, j_exit_code = Some 0\<rparr>"

definition job_pending :: job where
  "job_pending = \<lparr>j_id = ''j2'', j_command = ''date'', j_state = Some ''pending'',
     j_attempts = Some 1, j_max_retries = Some 3, j_created_at = Some 2, j_updated_at = Some 6,
     j_next_attempt_at = Some 40, j_last_error = Some ''Exit 2'', j_exit_code = Some 2\<rparr>"

definition legacy_store :: disk where
  "legacy_store = \<lparr>content = Legacy [job_done, job_pending] None, writes = 0\<rparr>"

definition payload_b :: payload where
  "payload_b = \<lparr>p_id = Some ''b'', p_command = Some ''echo again'', p_state = None,
     p_attempts = None, p_max_retries = None, p_created_at = None, p_updated_at = None,
     p_next_run_at = None, p_last_error = None, p_exit_code = None\<rparr>"

definition payload_f :: payload where
  "payload_f = \<lparr>p_id = Some ''f'', p_command = Some ''false'', p_state = None,
     p_attempts = None, p_max_retries = None, p_created_at = None, p_updated_at = None,
     p_next_run_at = None, p_last_error = None, p_exit_code = None\<rparr>"

text \<open>
  The store the \<^verbatim>\<open>selfcheck\<close> command builds on a fresh path: \<^verbatim>\<open>initData()\<close>, then
  \<^verbatim>\<open>addTask\<close> of \<^verbatim>\<open>{ command: 'echo test', max_retries: 1 }\<close>.
\<close>

definition selfcheck_payload :: payload where
  "selfcheck_payload = \<lparr>p_id = None, p_command = Some ''echo test'', p_state = None,
     p_attempts = None, p_max_retries = Some 1, p_created_at = None, p_updated_at = None,
     p_next_run_at = None, p_last_error = None, p_exit_code = None\<rparr>"

definition selfcheck_store :: disk where
  "selfcheck_store =
     (case addTaskObject selfcheck_payload ''selfcheck-id'' 100
             (initData \<lparr>content = Absent, writes = 0\<rparr>) of
        Inr (i, d) \<Rightarrow> d
      | Inl e \<Rightarrow> \<lparr>content = Absent, writes = 0\<rparr>)"

section \<open>Basic facts\<close>

lemma findIndex_None_iff: "findIndex P xs = None \<longleftrightarrow> (\<forall>x\<in>set xs. \<not> P x)"
  by (induction xs) auto

lemma findIndex_Some:
  "findIndex P xs = Some k \<Longrightarrow> k < length xs \<and> P (xs ! k) \<and> (\<forall>j<k. \<not> P (xs ! j))"
proof (induction xs arbitrary: k)
  case Nil
  then show ?case by simp
next
  case (Cons x xs)
  show ?case
  proof (cases "P x")
    case True
    with Cons.prems show ?thesis by simp
  next
    case False
    with Cons.prems obtain k' where k': "findIndex P xs = Some k'" "k = Suc k'"
      by auto
    from Cons.IH [OF k'(1)] False k'(2) show ?thesis
      by (auto simp: nth_Cons split: nat.splits)
  qed
qed

lemma loadData_not_legacy: "\<not> is_legacy (content d) \<Longrightarrow> snd (loadData d) = d"
  by (cases "content d") (simp_all add: loadData_def)

lemma loadData_legacy:
  "content d = Legacy jobs c \<Longrightarrow>
   loadData d =
     (\<lparr>tasks = map migrate_job jobs, config = (case c of Some cf \<Rightarrow> cf | None \<Rightarrow> DEFAULT_CONF)\<rparr>,
      \<lparr>content = Canonical (map migrate_job jobs)
                  (Some (case c of Some cf \<Rightarrow> cf | None \<Rightarrow> DEFAULT_CONF)),
       writes = writes d + 1\<rparr>)"
  by (simp add: loadData_def saveData_def Let_def)

lemma loadData_again: "loadData (snd (loadData d)) = (fst (loadData d), snd (loadData d))"
  by (cases "content d") (simp_all add: loadData_def saveData_def Let_def empty_dataset_def split: option.splits)

lemma loadData_canonical:
  "content d = Canonical ts (Some cf) \<Longrightarrow> loadData d = (\<lparr>tasks = ts, config = cf\<rparr>, d)"
  by (simp add: loadData_def)

lemma stored_tasks_saveData: "stored_tasks (saveData data d) = tasks data"
  by (simp add: stored_tasks_def loadData_def saveData_def)

lemma markFailed_found:
  assumes "loadData d = (data, d1)"
    and "findIndex (\<lambda>t. task_id t = i) (tasks data) = Some k"
  shows "markFailed i atts mr code err base tnow stamp d =
     (if atts + 1 \<ge> max_retries (tasks data ! k)
      then (None, saveData (data\<lparr>tasks := (tasks data)
              [k := (tasks data ! k)\<lparr>attempts := atts + 1, last_error := Some err,
                     exit_code := Some code, state := ''failed'', updated_at := Some stamp\<rparr>]\<rparr>) d1)
      else if \<bar>int tnow + backoff_base_of base (config data) ^ (atts + 1) * 1000\<bar> \<le> MAX_DATE
      then (None, saveData (data\<lparr>tasks := (tasks data)
              [k := (tasks data ! k)\<lparr>attempts := atts + 1, last_error := Some err,
                     exit_code := Some code,
                     next_run_at := Some (int tnow + backoff_base_of base (config data) ^ (atts + 1) * 1000),
                     state := ''waiting'', updated_at := Some stamp\<rparr>]\<rparr>) d1)
      else (Some RangeError, d1))"
  using assms by (simp add: markFailed_def Let_def)

lemma markFailed_taskflow_found:
  assumes "loadData d = (data, d1)"
    and "findIndex (\<lambda>t. task_id t = i) (tasks data) = Some k"
  shows "markFailed_taskflow i atts mr code err base tnow stamp d =
     (if atts + 1 > max_retries (tasks data ! k)
      then (None, saveData (data\<lparr>tasks := (tasks data)
              [k := (tasks data ! k)\<lparr>attempts := atts + 1, last_error := Some err,
                     exit_code := Some code, state := ''failed'', updated_at := Some stamp\<rparr>]\<rparr>) d1)
      else if \<bar>int tnow + backoff_base_of base (config data) ^ (atts + 1) * 1000\<bar> \<le> MAX_DATE
      then (None, saveData (data\<lparr>tasks := (tasks data)
              [k := (tasks data ! k)\<lparr>attempts := atts + 1, last_error := Some err,
                     exit_code := Some code,
                     next_run_at := Some (int tnow + backoff_base_of base (config data) ^ (atts + 1) * 1000),
                     state := ''waiting'', updated_at := Some stamp\<rparr>]\<rparr>) d1)
      else (Some RangeError, d1))"
  using assms by (simp add: markFailed_taskflow_def Let_def)

lemma sort_key_head_min:
  assumes "sort_key f xs = y # ys"
  shows "y \<in> set xs \<and> (\<forall>x\<in>set xs. f y \<le> f x)"
proof -
  have s: "set (sort_key f xs) = set xs" by simp
  have "sorted (map f (sort_key f xs))" by (rule sorted_sort_key)
  with assms have "\<forall>x\<in>set ys. f y \<le> f x" by simp
  moreover from s assms have "set xs = insert y (set ys)" by simp
  ultimately show ?thesis by auto
qed

lemma sort_key_head_first:
  assumes "sort_key f xs = y # ys"
  shows "filter (\<lambda>z. f z = f y) xs = y # filter (\<lambda>z. f z = f y) ys"
  using sort_key_stable [of f "f y" xs] assms by simp

lemma enumerate_filter_sorted:
  "sorted (map fst (filter P (enumerate 0 ts)))"
proof -
  have "sorted (map fst (enumerate 0 ts))" by (simp add: map_fst_enumerate)
  then show ?thesis by (rule sorted_filter)
qed

lemma claim_pick:
  assumes "sort_key (\<lambda>(i, t). created_key (created_at t))
             (filter (\<lambda>(i, t). eligible now t) (enumerate 0 ts)) = (i, t) # rest"
  shows "i < length ts \<and> t = ts ! i \<and> eligible now t \<and>
         (\<forall>j<length ts. eligible now (ts ! j) \<longrightarrow>
            created_key (created_at t) \<le> created_key (created_at (ts ! j)) \<and>
            (created_key (created_at (ts ! j)) = created_key (created_at t) \<longrightarrow> i \<le> j))"
proof -
  let ?key = "\<lambda>(i, t). created_key (created_at t)"
  let ?L = "filter (\<lambda>(i, t). eligible now t) (enumerate 0 ts)"
  from sort_key_head_min [OF assms]
  have mem: "(i, t) \<in> set ?L" and least: "\<forall>x\<in>set ?L. ?key (i, t) \<le> ?key x"
    by blast+
  from mem have it: "i < length ts" "t = ts ! i" "eligible now t"
    by (auto simp: in_set_enumerate_eq)
  have inL: "(j, ts ! j) \<in> set ?L" if "j < length ts" "eligible now (ts ! j)" for j
    using that by (simp add: in_set_enumerate_eq)
  let ?F = "filter (\<lambda>z. ?key z = ?key (i, t)) ?L"
  from sort_key_head_first [OF assms]
  obtain F' where F: "?F = (i, t) # F'" by blast
  have "sorted (map fst ?F)"
    using enumerate_filter_sorted [of "\<lambda>(i, t). eligible now t" ts]
    by (rule sorted_filter)
  with F have first: "\<forall>z\<in>set ?F. i \<le> fst z" by auto
  have "created_key (created_at t) \<le> created_key (created_at (ts ! j)) \<and> (created_key (created_at (ts ! j)) = created_key (created_at t) \<longrightarrow> i \<le> j)"
    if j: "j < length ts" "eligible now (ts ! j)" for j
  proof
    from least inL [OF j] show "created_key (created_at t) \<le> created_key (created_at (ts ! j))" by auto
    show "created_key (created_at (ts ! j)) = created_key (created_at t) \<longrightarrow> i \<le> j"
    proof
      assume "created_key (created_at (ts ! j)) = created_key (created_at t)"
      with inL [OF j] have "(j, ts ! j) \<in> set ?F" by simp
      with first show "i \<le> j" by auto
    qed
  qed
  with it show ?thesis by blast
qed

lemma sort_key_Nil_iff: "sort_key f xs = [] \<longleftrightarrow> xs = []"
proof -
  have "length (sort_key f xs) = length xs" by (rule length_sort)
  then show ?thesis by (simp only: flip: length_0_conv)
qed

lemma claim_candidates_nonempty:
  assumes "t \<in> set ts" and "eligible now t"
  shows "sort_key (\<lambda>(i, t). created_key (created_at t))
             (filter (\<lambda>(i, t). eligible now t) (enumerate 0 ts)) \<noteq> []"
proof -
  from assms(1) obtain j where j: "j < length ts" "ts ! j = t"
    by (auto simp: in_set_conv_nth)
  with assms(2) have "(j, t) \<in> set (filter (\<lambda>(i, t). eligible now t) (enumerate 0 ts))"
    by (simp add: in_set_enumerate_eq)
  then have "0 < length (filter (\<lambda>(i, t). eligible now t) (enumerate 0 ts))"
    by (rule length_pos_if_in_set)
  then show ?thesis by (simp only: sort_key_Nil_iff length_greater_0_conv not_False_eq_True)
qed


lemma stored_tasks_loaded: "stored_tasks (snd (loadData d)) = stored_tasks d"
  by (simp add: stored_tasks_def loadData_again)




lemma loadData_stored:
  "loadData d = (data, d1) \<Longrightarrow> stored_tasks d = tasks data"
  by (simp add: stored_tasks_def)

lemma markFailed_terminal:
  assumes "loadData d = (data, d1)"
    and "findIndex (\<lambda>t. task_id t = i) (tasks data) = Some k"
    and "max_retries (tasks data ! k) \<le> atts + 1"
  shows "markFailed i atts mr code err base tnow stamp d =
     (None, saveData (data\<lparr>tasks := (tasks data)
        [k := (tasks data ! k)\<lparr>attempts := atts + 1, last_error := Some err,
               exit_code := Some code, state := ''failed'', updated_at := Some stamp\<rparr>]\<rparr>) d1)"
  using assms(3) by (simp add: markFailed_found [OF assms(1,2)])

lemma markFailed_retry:
  assumes "loadData d = (data, d1)"
    and "findIndex (\<lambda>t. task_id t = i) (tasks data) = Some k"
    and "atts + 1 < max_retries (tasks data ! k)"
    and "\<bar>int tnow + backoff_base_of base (config data) ^ (atts + 1) * 1000\<bar> \<le> MAX_DATE"
  shows "markFailed i atts mr code err base tnow stamp d =
     (None, saveData (data\<lparr>tasks := (tasks data)
        [k := (tasks data ! k)\<lparr>attempts := atts + 1, last_error := Some err,
               exit_code := Some code,
               next_run_at := Some (int tnow + backoff_base_of base (config data) ^ (atts + 1) * 1000),
               state := ''waiting'', updated_at := Some stamp\<rparr>]\<rparr>) d1)"
    and "markFailed_taskflow i atts mr code err base tnow stamp d =
     (None, saveData (data\<lparr>tasks := (tasks data)
        [k := (tasks data ! k)\<lparr>attempts := atts + 1, last_error := Some err,
               exit_code := Some code,
               next_run_at := Some (int tnow + backoff_base_of base (config data) ^ (atts + 1) * 1000),
               state := ''waiting'', updated_at := Some stamp\<rparr>]\<rparr>) d1)"
  using assms(3,4)
  by (simp_all add: markFailed_found [OF assms(1,2)] markFailed_taskflow_found [OF assms(1,2)])

text \<open>
  The error path of both versions: a retry whose \<open>next_run_at\<close> would be outside the
  range of \<^verbatim>\<open>Date\<close> raises \<^verbatim>\<open>RangeError\<close> and saves nothing.
\<close>

lemma markFailed_throws:
  assumes "loadData d = (data, d1)"
    and "findIndex (\<lambda>t. task_id t = i) (tasks data) = Some k"
    and "atts + 1 < max_retries (tasks data ! k)"
    and "MAX_DATE < \<bar>int tnow + backoff_base_of base (config data) ^ (atts + 1) * 1000\<bar>"
  shows "markFailed i atts mr code err base tnow stamp d = (Some RangeError, d1)"
    and "markFailed_taskflow i atts mr code err base tnow stamp d = (Some RangeError, d1)"
  using assms(3,4)
  by (simp_all add: markFailed_found [OF assms(1,2)] markFailed_taskflow_found [OF assms(1,2)])

section \<open>The retry and backoff policy\<close>

text \<open>
  The terminal decision of \<^verbatim>\<open>markFailed\<close> in \<^verbatim>\<open>src/unnamed/part_001\<close>. With the new count
  \<open>atts + 1\<close>: at or above the stored ceiling the task becomes \<open>failed\<close>, its exit code
  and error are recorded and \<open>next_run_at\<close> keeps the value it had; below the ceiling the
  task returns to \<open>waiting\<close>, when the new \<open>next_run_at\<close> is an instant \<^verbatim>\<open>Date\<close> holds.
\<close>

lemma markFailed_part_001_policy:
  assumes "loadData d = (data, d1)"
    and "findIndex (\<lambda>t. task_id t = i) (tasks data) = Some k"
  shows "(max_retries (tasks data ! k) \<le> atts + 1 \<longrightarrow>
            fst (markFailed i atts mr code err base tnow stamp d) = None \<and>
            stored_tasks (snd (markFailed i atts mr code err base tnow stamp d)) ! k =
              (tasks data ! k)\<lparr>attempts := atts + 1, last_error := Some err,
                 exit_code := Some code, state := ''failed'', updated_at := Some stamp\<rparr>) \<and>
         (atts + 1 < max_retries (tasks data ! k) \<and>
          \<bar>int tnow + backoff_base_of base (config data) ^ (atts + 1) * 1000\<bar> \<le> MAX_DATE \<longrightarrow>
            fst (markFailed i atts mr code err base tnow stamp d) = None \<and>
            state (stored_tasks (snd (markFailed i atts mr code err base tnow stamp d)) ! k) = ''waiting'')"
proof -
  from findIndex_Some [OF assms(2)] have "k < length (tasks data)" by simp
  then show ?thesis
    by (simp add: markFailed_found [OF assms] stored_tasks_saveData)
qed

text \<open>
  C1. After a failing execution the new count is \<open>attempts + 1\<close>; when it reaches
  \<open>max_retries\<close> the task must become \<open>failed\<close>. \<^verbatim>\<open>markFailed\<close> of \<^verbatim>\<open>src/taskflow.js\<close>
  tests \<^verbatim>\<open>t.attempts > t.max_retries\<close> and misses the case of equality. On the store of
  its own \<^verbatim>\<open>selfcheck\<close> (one task, no attempt yet, \<open>max_retries = 1\<close>) the scored failure
  \<^verbatim>\<open>markFailed(t.id, 0, 1, 1, 'simulate', 2)\<close> leaves the task \<open>waiting\<close> with
  \<open>attempts = max_retries = 1\<close>, where \<^verbatim>\<open>selfcheck\<close> expects \<open>failed\<close>; \<^verbatim>\<open>markFailed\<close> of
  \<^verbatim>\<open>src/unnamed/part_001\<close> makes it \<open>failed\<close> on the same input. Neither call raises.
\<close>

theorem markFailed_taskflow_at_ceiling:
  "map (\<lambda>t. (attempts t, max_retries t, state t)) (stored_tasks selfcheck_store)
     = [(0, 1, ''waiting'')]
   \<and> fst (markFailed_taskflow ''selfcheck-id'' 0 1 1 ''simulate'' 2 200 201 selfcheck_store) = None
   \<and> map (\<lambda>t. (attempts t, max_retries t, state t))
       (stored_tasks (snd (markFailed_taskflow ''selfcheck-id'' 0 1 1 ''simulate'' 2 200 201
                             selfcheck_store)))
     = [(1, 1, ''waiting'')]
   \<and> fst (markFailed ''selfcheck-id'' 0 1 1 ''simulate'' 2 200 201 selfcheck_store) = None
   \<and> map (\<lambda>t. (attempts t, max_retries t, state t))
       (stored_tasks (snd (markFailed ''selfcheck-id'' 0 1 1 ''simulate'' 2 200 201
                             selfcheck_store)))
     = [(1, 1, ''failed'')]"
  by (simp add: selfcheck_store_def selfcheck_payload_def addTaskObject_def initData_def
      loadData_def saveData_def empty_dataset_def DEFAULT_CONF_def new_entry_def
      stored_tasks_def markFailed_def markFailed_taskflow_def Let_def backoff_base_of_def
      MAX_DATE_def)

text \<open>
  C2, as the code has it. When the scored failure is not terminal (\<open>atts + 1\<close> below the
  stored ceiling), the base \<open>b\<close> passed in is not zero and \<^verbatim>\<open>Date.now()\<close> plus
  \<open>b ^ (atts + 1)\<close> seconds is an instant \<^verbatim>\<open>Date\<close> holds, both versions of \<^verbatim>\<open>markFailed\<close>
  return without raising and set \<open>next_run_at\<close> to that instant. A base of zero is
  falsy: the configured \<^verbatim>\<open>backoff_base\<close> is used in its place, and \<open>2\<close> when that is
  zero or missing too, with the same proviso. What happens beyond the range of \<^verbatim>\<open>Date\<close>
  is not part of this statement.
\<close>

theorem markFailed_backoff_delay:
  assumes "loadData d = (data, d1)"
    and "findIndex (\<lambda>t. task_id t = i) (tasks data) = Some k"
    and "atts + 1 < max_retries (tasks data ! k)"
  shows "(base \<noteq> 0 \<and> \<bar>int tnow + base ^ (atts + 1) * 1000\<bar> \<le> MAX_DATE \<longrightarrow>
            fst (markFailed i atts mr code err base tnow stamp d) = None \<and>
            next_run_at (stored_tasks (snd (markFailed i atts mr code err base tnow stamp d)) ! k) =
              Some (int tnow + base ^ (atts + 1) * 1000) \<and>
            fst (markFailed_taskflow i atts mr code err base tnow stamp d) = None \<and>
            next_run_at (stored_tasks (snd (markFailed_taskflow i atts mr code err base tnow stamp d)) ! k) =
              Some (int tnow + base ^ (atts + 1) * 1000)) \<and>
         (base = 0 \<and>
          \<bar>int tnow + (case truthy_int (conf_backoff_base (config data)) of
                           Some c \<Rightarrow> c | None \<Rightarrow> 2) ^ (atts + 1) * 1000\<bar> \<le> MAX_DATE \<longrightarrow>
            fst (markFailed i atts mr code err base tnow stamp d) = None \<and>
            next_run_at (stored_tasks (snd (markFailed i atts mr code err base tnow stamp d)) ! k) =
              Some (int tnow + (case truthy_int (conf_backoff_base (config data)) of
                                  Some c \<Rightarrow> c | None \<Rightarrow> 2) ^ (atts + 1) * 1000) \<and>
            fst (markFailed_taskflow i atts mr code err base tnow stamp d) = None \<and>
            next_run_at (stored_tasks (snd (markFailed_taskflow i atts mr code err base tnow stamp d)) ! k) =
              Some (int tnow + (case truthy_int (conf_backoff_base (config data)) of
                                  Some c \<Rightarrow> c | None \<Rightarrow> 2) ^ (atts + 1) * 1000))"
proof -
  from findIndex_Some [OF assms(2)] have k: "k < length (tasks data)" by simp
  have res: "fst (markFailed i atts mr code err base tnow stamp d) = None \<and>
      next_run_at (stored_tasks (snd (markFailed i atts mr code err base tnow stamp d)) ! k) =
        Some (int tnow + b ^ (atts + 1) * 1000) \<and>
      fst (markFailed_taskflow i atts mr code err base tnow stamp d) = None \<and>
      next_run_at (stored_tasks (snd (markFailed_taskflow i atts mr code err base tnow stamp d)) ! k) =
        Some (int tnow + b ^ (atts + 1) * 1000)"
    if b: "backoff_base_of base (config data) = b"
      and r: "\<bar>int tnow + b ^ (atts + 1) * 1000\<bar> \<le> MAX_DATE" for b
  proof -
    from b r
    have r': "\<bar>int tnow + backoff_base_of base (config data) ^ (atts + 1) * 1000\<bar> \<le> MAX_DATE"
      by simp
    show ?thesis
      using k b by (simp add: markFailed_retry [OF assms r'] stored_tasks_saveData)
  qed
  have b1: "backoff_base_of base (config data) = base" if "base \<noteq> 0"
    using that by (simp add: backoff_base_of_def)
  have b0: "backoff_base_of base (config data) =
      (case truthy_int (conf_backoff_base (config data)) of Some c \<Rightarrow> c | None \<Rightarrow> 2)"
    if "base = 0"
    using that by (simp add: backoff_base_of_def DEFAULT_backoff_base_def split: option.splits)
  show ?thesis
  proof (rule conjI)
    show "base \<noteq> 0 \<and> \<bar>int tnow + base ^ (atts + 1) * 1000\<bar> \<le> MAX_DATE \<longrightarrow>
            fst (markFailed i atts mr code err base tnow stamp d) = None \<and>
            next_run_at (stored_tasks (snd (markFailed i atts mr code err base tnow stamp d)) ! k) =
              Some (int tnow + base ^ (atts + 1) * 1000) \<and>
            fst (markFailed_taskflow i atts mr code err base tnow stamp d) = None \<and>
            next_run_at (stored_tasks (snd (markFailed_taskflow i atts mr code err base tnow stamp d)) ! k) =
              Some (int tnow + base ^ (atts + 1) * 1000)"
    proof (intro impI, elim conjE)
      assume "base \<noteq> 0" and "\<bar>int tnow + base ^ (atts + 1) * 1000\<bar> \<le> MAX_DATE"
      then show "fst (markFailed i atts mr code err base tnow stamp d) = None \<and>
            next_run_at (stored_tasks (snd (markFailed i atts mr code err base tnow stamp d)) ! k) =
              Some (int tnow + base ^ (atts + 1) * 1000) \<and>
            fst (markFailed_taskflow i atts mr code err base tnow stamp d) = None \<and>
            next_run_at (stored_tasks (snd (markFailed_taskflow i atts mr code err base tnow stamp d)) ! k) =
              Some (int tnow + base ^ (atts + 1) * 1000)"
        by (rule res [OF b1])
    qed
    show "base = 0 \<and>
          \<bar>int tnow + (case truthy_int (conf_backoff_base (config data)) of
                           Some c \<Rightarrow> c | None \<Rightarrow> 2) ^ (atts + 1) * 1000\<bar> \<le> MAX_DATE \<longrightarrow>
            fst (markFailed i atts mr code err base tnow stamp d) = None \<and>
            next_run_at (stored_tasks (snd (markFailed i atts mr code err base tnow stamp d)) ! k) =
              Some (int tnow + (case truthy_int (conf_backoff_base (config data)) of
                                  Some c \<Rightarrow> c | None \<Rightarrow> 2) ^ (atts + 1) * 1000) \<and>
            fst (markFailed_taskflow i atts mr code err base tnow stamp d) = None \<and>
            next_run_at (stored_tasks (snd (markFailed_taskflow i atts mr code err base tnow stamp d)) ! k) =
              Some (int tnow + (case truthy_int (conf_backoff_base (config data)) of
                                  Some c \<Rightarrow> c | None \<Rightarrow> 2) ^ (atts + 1) * 1000)"
    proof (intro impI, elim conjE)
      assume "base = 0"
        and "\<bar>int tnow + (case truthy_int (conf_backoff_base (config data)) of
                           Some c \<Rightarrow> c | None \<Rightarrow> 2) ^ (atts + 1) * 1000\<bar> \<le> MAX_DATE"
      then show "fst (markFailed i atts mr code err base tnow stamp d) = None \<and>
            next_run_at (stored_tasks (snd (markFailed i atts mr code err base tnow stamp d)) ! k) =
              Some (int tnow + (case truthy_int (conf_backoff_base (config data)) of
                                  Some c \<Rightarrow> c | None \<Rightarrow> 2) ^ (atts + 1) * 1000) \<and>
            fst (markFailed_taskflow i atts mr code err base tnow stamp d) = None \<and>
            next_run_at (stored_tasks (snd (markFailed_taskflow i atts mr code err base tnow stamp d)) ! k) =
              Some (int tnow + (case truthy_int (conf_backoff_base (config data)) of
                                  Some c \<Rightarrow> c | None \<Rightarrow> 2) ^ (atts + 1) * 1000)"
        by (rule res [OF b0])
    qed
  qed
qed

theorem markFailed_backoff_delay_witness:
  "loadData store_abc = (\<lparr>tasks = [task_a, task_b, task_c], config = DEFAULT_CONF\<rparr>, store_abc)
   \<and> findIndex (\<lambda>t. task_id t = ''b'') [task_a, task_b, task_c] = Some 1
   \<and> 0 + 1 < max_retries ([task_a, task_b, task_c] ! 1)
   \<and> \<bar>int 1000 + 3 ^ (0 + 1) * 1000\<bar> \<le> MAX_DATE
   \<and> fst (markFailed ''b'' 0 3 1 ''Exit 1'' 3 1000 1001 store_abc) = None
   \<and> next_run_at (stored_tasks (snd (markFailed ''b'' 0 3 1 ''Exit 1'' 3 1000 1001 store_abc)) ! 1)
       = Some 4000
   \<and> fst (markFailed_taskflow ''b'' 0 3 1 ''Exit 1'' 3 1000 1001 store_abc) = None
   \<and> next_run_at (stored_tasks (snd (markFailed_taskflow ''b'' 0 3 1 ''Exit 1'' 3 1000 1001 store_abc)) ! 1)
       = Some 4000
   \<and> \<bar>int 1000 + 2 ^ (0 + 1) * 1000\<bar> \<le> MAX_DATE
   \<and> next_run_at (stored_tasks (snd (markFailed ''b'' 0 3 1 ''Exit 1'' 0 1000 1001 store_abc)) ! 1)
       = Some 3000"
proof -
  let ?data = "\<lparr>tasks = [task_a, task_b, task_c], config = DEFAULT_CONF\<rparr>"
  have h1: "loadData store_abc = (?data, store_abc)"
    by (simp add: loadData_def store_abc_def)
  have h2: "findIndex (\<lambda>t. task_id t = ''b'') (tasks ?data) = Some 1"
    by (simp add: task_a_def task_b_def)
  have h3: "0 + 1 < max_retries (tasks ?data ! 1)"
    by (simp add: task_b_def)
  have r3: "\<bar>int 1000 + 3 ^ (0 + 1) * 1000\<bar> \<le> MAX_DATE"
    and r2: "\<bar>int 1000 + 2 ^ (0 + 1) * 1000\<bar> \<le> MAX_DATE"
    by (simp_all add: MAX_DATE_def)
  have cf: "truthy_int (conf_backoff_base (config ?data)) = Some 2"
    by (simp add: DEFAULT_CONF_def DEFAULT_backoff_base_def)
  from markFailed_backoff_delay [OF h1 h2 h3, of 3 1000 3 1 "''Exit 1''" 1001] r3
  have a: "fst (markFailed ''b'' 0 3 1 ''Exit 1'' 3 1000 1001 store_abc) = None"
    "next_run_at (stored_tasks (snd (markFailed ''b'' 0 3 1 ''Exit 1'' 3 1000 1001 store_abc)) ! 1)
       = Some 4000"
    "fst (markFailed_taskflow ''b'' 0 3 1 ''Exit 1'' 3 1000 1001 store_abc) = None"
    "next_run_at (stored_tasks (snd (markFailed_taskflow ''b'' 0 3 1 ''Exit 1'' 3 1000 1001 store_abc)) ! 1)
       = Some 4000"
    by simp_all
  from markFailed_backoff_delay [OF h1 h2 h3, of 0 1000 3 1 "''Exit 1''" 1001] r2 cf
  have b: "next_run_at (stored_tasks (snd (markFailed ''b'' 0 3 1 ''Exit 1'' 0 1000 1001 store_abc)) ! 1)
       = Some 3000"
    by simp
  from h1 h2 h3 r3 r2 a b show ?thesis by simp
qed

theorem markFailed_zero_base_counterexample:
  "0 + 1 < max_retries (stored_tasks store_abc ! 0)
   \<and> task_id (stored_tasks store_abc ! 0) = ''a''
   \<and> fst (markFailed ''a'' 0 3 1 ''Exit 1'' 0 1000 1001 store_abc) = None
   \<and> next_run_at (stored_tasks (snd (markFailed ''a'' 0 3 1 ''Exit 1'' 0 1000 1001 store_abc)) ! 0)
       = Some 3000
   \<and> next_run_at (stored_tasks (snd (markFailed ''a'' 0 3 1 ''Exit 1'' 0 1000 1001 store_abc)) ! 0)
       \<noteq> Some (1000 + 0 ^ (0 + 1) * 1000)"
  by (simp add: store_abc_def task_a_def stored_tasks_def loadData_def saveData_def
      markFailed_def Let_def backoff_base_of_def DEFAULT_CONF_def DEFAULT_backoff_base_def
      MAX_DATE_def)

section \<open>The claimer\<close>


lemma eligible_eq_spec_eligible:
  assumes "int now < year_10000"
    and "\<forall>r. next_run_at t = Some r \<longrightarrow> r < year_10000"
  shows "eligible now t = spec_eligible now t"
proof (cases "next_run_at t")
  case None
  then show ?thesis by (simp add: eligible_def spec_eligible_def)
next
  case (Some r)
  with assms(2) have "r < year_10000" by simp
  with assms(1) Some show ?thesis
    by (simp add: eligible_def spec_eligible_def iso_le_def)
qed

lemma created_key_le:
  assumes "int c < year_10000" and "int c' < year_10000"
  shows "(created_key (Some c) \<le> created_key (Some c')) = (c \<le> c')"
    and "(created_key (Some c) = created_key (Some c')) = (c = c')"
    and "created_key None \<le> created_key (Some c)"
  using assms by (simp_all add: created_key_def less_eq_prod_def)

text \<open>
  What \<^verbatim>\<open>claimTask\<close> does when the filter lets a task through. It picks a position \<open>i\<close>
  whose task passes the filter and has the least key of all that pass, the first such
  position where several share that key (the sort is stable). It returns that task with
  \<open>state\<close> set to \<open>running\<close> and \<open>updated_at\<close> set to the clock, and writes the whole
  snapshot once, with position \<open>i\<close> replaced and every other task and the configuration
  as loaded.
\<close>

lemma claimTask_selects:
  assumes "loadData d = (data, d1)"
    and "t \<in> set (tasks data)" and "eligible now t"
  shows "\<exists>i<length (tasks data).
           eligible now (tasks data ! i) \<and>
           (\<forall>j<length (tasks data). eligible now (tasks data ! j) \<longrightarrow>
              created_key (created_at (tasks data ! i)) \<le> created_key (created_at (tasks data ! j)) \<and>
              (created_key (created_at (tasks data ! j)) = created_key (created_at (tasks data ! i))
                 \<longrightarrow> i \<le> j)) \<and>
           claimTask now now2 d =
             (Some ((tasks data ! i)\<lparr>state := ''running'', updated_at := Some now2\<rparr>),
              \<lparr>content = Canonical
                 ((tasks data)[i := (tasks data ! i)\<lparr>state := ''running'', updated_at := Some now2\<rparr>])
                 (Some (config data)),
               writes = writes d1 + 1\<rparr>)"
proof -
  let ?S = "sort_key (\<lambda>(i, t). created_key (created_at t))
              (filter (\<lambda>(i, t). eligible now t) (enumerate 0 (tasks data)))"
  from claim_candidates_nonempty [OF assms(2,3)] obtain i u rest where S: "?S = (i, u) # rest"
    by (cases ?S) auto
  from claim_pick [OF S]
  have p: "i < length (tasks data)" "u = tasks data ! i" "eligible now u"
    "\<forall>j<length (tasks data). eligible now (tasks data ! j) \<longrightarrow>
        created_key (created_at u) \<le> created_key (created_at (tasks data ! j)) \<and>
        (created_key (created_at (tasks data ! j)) = created_key (created_at u) \<longrightarrow> i \<le> j)"
    by blast+
  have "claimTask now now2 d =
      (Some (u\<lparr>state := ''running'', updated_at := Some now2\<rparr>),
       saveData (data\<lparr>tasks := (tasks data)[i := u\<lparr>state := ''running'', updated_at := Some now2\<rparr>]\<rparr>) d1)"
    using assms(1) S by (simp add: claimTask_def Let_def)
  with p show ?thesis
    by (auto simp: saveData_def intro!: exI [of _ i])
qed

text \<open>
  The same in the words of the specification, while every timestamp involved is of a
  year of four digits: the clock, every \<open>next_run_at\<close> and every \<open>created_at\<close> of the
  snapshot. Then the filter is eligibility as the specification states it and the key
  is the order of \<open>created_at\<close>, a missing one first.
\<close>

lemma claimTask_selects_four_digit_years:
  assumes l: "loadData d = (data, d1)"
    and t: "t \<in> set (tasks data)" "spec_eligible now t"
    and now: "int now < year_10000"
    and nr: "\<forall>u\<in>set (tasks data). \<forall>r. next_run_at u = Some r \<longrightarrow> r < year_10000"
    and cr: "\<forall>u\<in>set (tasks data). \<forall>c. created_at u = Some c \<longrightarrow> int c < year_10000"
  shows "\<exists>i<length (tasks data).
           spec_eligible now (tasks data ! i) \<and>
           (\<forall>j<length (tasks data). spec_eligible now (tasks data ! j) \<longrightarrow>
              (\<forall>cj. created_at (tasks data ! j) = Some cj \<longrightarrow>
                 created_at (tasks data ! i) = None \<or>
                 (\<exists>ci. created_at (tasks data ! i) = Some ci \<and> ci \<le> cj)) \<and>
              (created_at (tasks data ! j) = None \<longrightarrow> created_at (tasks data ! i) = None) \<and>
              (created_at (tasks data ! j) = created_at (tasks data ! i) \<longrightarrow> i \<le> j)) \<and>
           claimTask now now2 d =
             (Some ((tasks data ! i)\<lparr>state := ''running'', updated_at := Some now2\<rparr>),
              \<lparr>content = Canonical
                 ((tasks data)[i := (tasks data ! i)\<lparr>state := ''running'', updated_at := Some now2\<rparr>])
                 (Some (config data)),
               writes = writes d1 + 1\<rparr>)"
proof -
  have eq: "eligible now u = spec_eligible now u" if "u \<in> set (tasks data)" for u
    using that nr by (intro eligible_eq_spec_eligible [OF now]) blast
  from t eq have "eligible now t" by simp
  from claimTask_selects [OF l t(1) this, of now2]
  obtain i where i: "i < length (tasks data)" "eligible now (tasks data ! i)"
    and least: "\<forall>j<length (tasks data). eligible now (tasks data ! j) \<longrightarrow>
              created_key (created_at (tasks data ! i)) \<le> created_key (created_at (tasks data ! j)) \<and>
              (created_key (created_at (tasks data ! j)) = created_key (created_at (tasks data ! i))
                 \<longrightarrow> i \<le> j)"
    and res: "claimTask now now2 d =
             (Some ((tasks data ! i)\<lparr>state := ''running'', updated_at := Some now2\<rparr>),
              \<lparr>content = Canonical
                 ((tasks data)[i := (tasks data ! i)\<lparr>state := ''running'', updated_at := Some now2\<rparr>])
                 (Some (config data)),
               writes = writes d1 + 1\<rparr>)"
    by blast
  have ci: "int c < year_10000" if "created_at (tasks data ! i) = Some c" for c
    using that cr i(1) by (metis nth_mem)
  have ord: "(\<forall>cj. created_at (tasks data ! j) = Some cj \<longrightarrow>
                 created_at (tasks data ! i) = None \<or>
                 (\<exists>ci. created_at (tasks data ! i) = Some ci \<and> ci \<le> cj)) \<and>
              (created_at (tasks data ! j) = None \<longrightarrow> created_at (tasks data ! i) = None) \<and>
              (created_at (tasks data ! j) = created_at (tasks data ! i) \<longrightarrow> i \<le> j)"
    if j: "j < length (tasks data)" "spec_eligible now (tasks data ! j)" for j
  proof -
    from j eq have "eligible now (tasks data ! j)" by simp
    with least j(1)
    have le: "created_key (created_at (tasks data ! i)) \<le> created_key (created_at (tasks data ! j))"
      and first: "created_key (created_at (tasks data ! j)) = created_key (created_at (tasks data ! i))
                 \<longrightarrow> i \<le> j"
      by blast+
    have cj: "int c < year_10000" if "created_at (tasks data ! j) = Some c" for c
      using that cr j(1) by (metis nth_mem)
    show ?thesis
    proof (cases "created_at (tasks data ! i)")
      case None
      with first show ?thesis by auto
    next
      case (Some a)
      show ?thesis
      proof (cases "created_at (tasks data ! j)")
        case None
        with le Some ci [OF Some] show ?thesis
          by (simp add: created_key_def less_eq_prod_def)
      next
        case (Some b)
        with le first \<open>created_at (tasks data ! i) = Some a\<close>
          created_key_le(1) [OF ci cj, of a b] show ?thesis
          by simp
      qed
    qed
  qed
  from i eq have "spec_eligible now (tasks data ! i)" by simp
  with i(1) ord res show ?thesis by blast
qed

text \<open>
  C3. The claim selects among the tasks whose \<open>next_run_at\<close> is absent or not after the
  current time. The filter of \<^verbatim>\<open>claimTask\<close> compares the two timestamps as strings, and
  the string of a year of five digits starts with \<^verbatim>\<open>+\<close>, below every digit: such a
  \<open>next_run_at\<close> counts as due. In \<open>store_retry\<close> the running task \<open>r\<close> fails for the
  38th time; \<^verbatim>\<open>markFailed\<close> with base \<open>2\<close> at instant \<open>1000\<close> schedules its retry
  \<open>2 ^ 38\<close> seconds ahead, at instant \<open>274877906945000\<close>, past the start of the year
  \<open>10000\<close>. One second later the only eligible task is \<open>a\<close>, and \<^verbatim>\<open>claimTask\<close> returns
  \<open>r\<close>.
\<close>

theorem claimTask_claims_far_future_task:
  "fst (markFailed ''r'' 37 50 1 ''Exit 1'' 2 1000 1001 store_retry) = None
   \<and> map task_id (stored_tasks store_far) = [''r'', ''a'']
   \<and> map state (stored_tasks store_far) = [''waiting'', ''waiting'']
   \<and> map next_run_at (stored_tasks store_far) = [Some 274877906945000, None]
   \<and> year_10000 \<le> 274877906945000
   \<and> \<not> spec_eligible 2000 (stored_tasks store_far ! 0)
   \<and> spec_eligible 2000 (stored_tasks store_far ! 1)
   \<and> eligible 2000 (stored_tasks store_far ! 0)
   \<and> map_option task_id (fst (claimTask 2000 2001 store_far)) = Some ''r''
   \<and> map state (stored_tasks (snd (claimTask 2000 2001 store_far))) = [''running'', ''waiting'']"
proof -
  have far: "store_far =
      \<lparr>content = Canonical
         [task_r\<lparr>attempts := 38, last_error := Some ''Exit 1'', exit_code := Some 1,
                  next_run_at := Some 274877906945000, state := ''waiting'',
                  updated_at := Some 1001\<rparr>, task_a] (Some DEFAULT_CONF),
       writes = 1\<rparr>"
    and ok: "fst (markFailed ''r'' 37 50 1 ''Exit 1'' 2 1000 1001 store_retry) = None"
    by (simp_all add: store_far_def store_retry_def markFailed_def loadData_def saveData_def
        Let_def task_r_def task_a_def backoff_base_of_def MAX_DATE_def)
  have st: "stored_tasks store_far =
      [task_r\<lparr>attempts := 38, last_error := Some ''Exit 1'', exit_code := Some 1,
               next_run_at := Some 274877906945000, state := ''waiting'',
               updated_at := Some 1001\<rparr>, task_a]"
    by (simp add: far stored_tasks_def loadData_def)
  have facts: "map task_id (stored_tasks store_far) = [''r'', ''a'']"
    "map state (stored_tasks store_far) = [''waiting'', ''waiting'']"
    "map next_run_at (stored_tasks store_far) = [Some 274877906945000, None]"
    "year_10000 \<le> 274877906945000"
    "\<not> spec_eligible 2000 (stored_tasks store_far ! 0)"
    "spec_eligible 2000 (stored_tasks store_far ! 1)"
    "eligible 2000 (stored_tasks store_far ! 0)"
    by (simp_all add: st task_r_def task_a_def year_10000_def spec_eligible_def eligible_def
        iso_le_def)
  have claim: "map_option task_id (fst (claimTask 2000 2001 store_far)) = Some ''r''"
    "map state (stored_tasks (snd (claimTask 2000 2001 store_far))) = [''running'', ''waiting'']"
    by (simp_all add: far claimTask_def loadData_def saveData_def stored_tasks_def Let_def
        task_r_def task_a_def eligible_def iso_le_def year_10000_def created_key_def
        less_eq_prod_def)
  from ok facts claim show ?thesis by simp
qed




section \<open>The store\<close>

text \<open>
  C4. Loading a file of the legacy schema turns the state names \<open>pending\<close>,
  \<open>processing\<close>, \<open>completed\<close> and \<open>dead\<close> into \<open>waiting\<close>, \<open>running\<close>, \<open>done\<close> and
  \<open>failed\<close>, job by job and in order, carries \<^verbatim>\<open>next_attempt_at\<close> over as \<open>next_run_at\<close>,
  and writes the migrated snapshot in the same call. A second load finds the canonical
  file, returns the same snapshot and writes nothing.
\<close>

theorem loadData_migrates_legacy:
  assumes "content d = Legacy jobs c"
  shows "\<exists>ts cf.
           loadData d = (\<lparr>tasks = ts, config = cf\<rparr>,
                         \<lparr>content = Canonical ts (Some cf), writes = writes d + 1\<rparr>) \<and>
           length ts = length jobs \<and>
           (\<forall>k<length jobs.
              (j_state (jobs ! k) = Some ''pending'' \<longrightarrow> state (ts ! k) = ''waiting'') \<and>
              (j_state (jobs ! k) = Some ''processing'' \<longrightarrow> state (ts ! k) = ''running'') \<and>
              (j_state (jobs ! k) = Some ''completed'' \<longrightarrow> state (ts ! k) = ''done'') \<and>
              (j_state (jobs ! k) = Some ''dead'' \<longrightarrow> state (ts ! k) = ''failed'') \<and>
              next_run_at (ts ! k) = j_next_attempt_at (jobs ! k)) \<and>
           loadData (snd (loadData d)) = (\<lparr>tasks = ts, config = cf\<rparr>, snd (loadData d))"
proof -
  let ?ts = "map migrate_job jobs"
  let ?cf = "case c of Some cf \<Rightarrow> cf | None \<Rightarrow> DEFAULT_CONF"
  have l: "loadData d = (\<lparr>tasks = ?ts, config = ?cf\<rparr>,
                         \<lparr>content = Canonical ?ts (Some ?cf), writes = writes d + 1\<rparr>)"
    by (rule loadData_legacy [OF assms])
  have names: "\<forall>k<length jobs.
      (j_state (jobs ! k) = Some ''pending'' \<longrightarrow> state (?ts ! k) = ''waiting'') \<and>
      (j_state (jobs ! k) = Some ''processing'' \<longrightarrow> state (?ts ! k) = ''running'') \<and>
      (j_state (jobs ! k) = Some ''completed'' \<longrightarrow> state (?ts ! k) = ''done'') \<and>
      (j_state (jobs ! k) = Some ''dead'' \<longrightarrow> state (?ts ! k) = ''failed'') \<and>
      next_run_at (?ts ! k) = j_next_attempt_at (jobs ! k)"
    by (simp add: migrate_job_def migrate_state_def)
  have again: "loadData (snd (loadData d)) = (\<lparr>tasks = ?ts, config = ?cf\<rparr>, snd (loadData d))"
    using loadData_again [of d] l by simp
  from l names again show ?thesis by (intro exI [of _ ?ts] exI [of _ ?cf]) simp
qed

theorem loadData_migrates_legacy_witness:
  "content legacy_store = Legacy [job_done, job_pending] None
   \<and> map state (stored_tasks legacy_store) = [''done'', ''waiting'']
   \<and> map next_run_at (stored_tasks legacy_store) = [None, Some 40]
   \<and> content (snd (loadData legacy_store)) = Canonical (stored_tasks legacy_store) (Some DEFAULT_CONF)
   \<and> writes (snd (loadData legacy_store)) = 1
   \<and> loadData (snd (loadData legacy_store)) = (fst (loadData legacy_store), snd (loadData legacy_store))"
proof -
  have h: "content legacy_store = Legacy [job_done, job_pending] None"
    by (simp add: legacy_store_def)
  from loadData_migrates_legacy [OF h]
  obtain ts cf where l: "loadData legacy_store =
        (\<lparr>tasks = ts, config = cf\<rparr>,
         \<lparr>content = Canonical ts (Some cf), writes = writes legacy_store + 1\<rparr>)"
    and len: "length ts = length [job_done, job_pending]"
    and names: "\<forall>k<length [job_done, job_pending].
        (j_state ([job_done, job_pending] ! k) = Some ''pending'' \<longrightarrow> state (ts ! k) = ''waiting'') \<and>
        (j_state ([job_done, job_pending] ! k) = Some ''processing'' \<longrightarrow> state (ts ! k) = ''running'') \<and>
        (j_state ([job_done, job_pending] ! k) = Some ''completed'' \<longrightarrow> state (ts ! k) = ''done'') \<and>
        (j_state ([job_done, job_pending] ! k) = Some ''dead'' \<longrightarrow> state (ts ! k) = ''failed'') \<and>
        next_run_at (ts ! k) = j_next_attempt_at ([job_done, job_pending] ! k)"
    and again: "loadData (snd (loadData legacy_store)) =
        (\<lparr>tasks = ts, config = cf\<rparr>, snd (loadData legacy_store))"
    by blast
  from len obtain t1 t2 where ts: "ts = [t1, t2]"
    by (cases ts; cases "tl ts") auto
  from names [rule_format, of 0] names [rule_format, of 1] ts
  have st: "state t1 = ''done''" "state t2 = ''waiting''"
    "next_run_at t1 = None" "next_run_at t2 = Some 40"
    by (simp_all add: job_done_def job_pending_def)
  have cf: "cf = DEFAULT_CONF"
    using l by (simp add: loadData_def legacy_store_def saveData_def Let_def)
  from h l again ts st cf show ?thesis
    by (simp add: stored_tasks_def legacy_store_def)
qed

text \<open>
  C7. On a canonical file, a \<^verbatim>\<open>tasks\<close> array with a \<^verbatim>\<open>config\<close> object, \<^verbatim>\<open>loadData\<close> returns
  the tasks and the configuration as they stand and writes nothing; saving what was
  loaded writes the content that was read.
\<close>

theorem save_load_canonical:
  assumes "content d = Canonical ts (Some cf)"
  shows "loadData d = (\<lparr>tasks = ts, config = cf\<rparr>, d)
       \<and> content (saveData (fst (loadData d)) (snd (loadData d))) = content d"
  using assms by (simp add: loadData_canonical saveData_def)

theorem save_load_canonical_witness:
  "content store_abc = Canonical [task_a, task_b, task_c] (Some DEFAULT_CONF)
   \<and> loadData store_abc = (\<lparr>tasks = [task_a, task_b, task_c], config = DEFAULT_CONF\<rparr>, store_abc)
   \<and> content (saveData (fst (loadData store_abc)) (snd (loadData store_abc))) = content store_abc"
proof -
  have h: "content store_abc = Canonical [task_a, task_b, task_c] (Some DEFAULT_CONF)"
    by (simp add: store_abc_def)
  from save_load_canonical [OF h] h show ?thesis by blast
qed


section \<open>Requeue of dead tasks, and unknown identifiers\<close>

lemma dead_retry_found:
  assumes "loadData d = (data, d1)"
    and "findIndex (\<lambda>t. task_id t = i \<and> state t = ''failed'') (tasks data) = Some k"
  shows "dead_retry i now d =
     (0, saveData (data\<lparr>tasks := (tasks data)
            [k := (tasks data ! k)\<lparr>state := ''waiting'', attempts := 0,
                                     next_run_at := None, updated_at := Some now\<rparr>]\<rparr>) d1)"
  using assms by (simp add: dead_retry_def)

lemma dead_retry_missing:
  assumes "findIndex (\<lambda>t. task_id t = i \<and> state t = ''failed'') (stored_tasks d) = None"
  shows "dead_retry i now d = (1, snd (loadData d))"
proof -
  obtain data d1 where l: "loadData d = (data, d1)" by (cases "loadData d")
  with assms show ?thesis by (simp add: dead_retry_def stored_tasks_def)
qed

lemma mark_missing:
  assumes "findIndex (\<lambda>t. task_id t = i) (stored_tasks d) = None"
  shows "markDone i now d = snd (loadData d)"
    and "markFailed i atts mr code err base tnow stamp d = (None, snd (loadData d))"
    and "markFailed_taskflow i atts mr code err base tnow stamp d = (None, snd (loadData d))"
proof -
  obtain data d1 where l: "loadData d = (data, d1)" by (cases "loadData d")
  with assms show "markDone i now d = snd (loadData d)"
    by (simp add: markDone_def stored_tasks_def)
  from l assms show "markFailed i atts mr code err base tnow stamp d = (None, snd (loadData d))"
    by (simp add: markFailed_def stored_tasks_def)
  from l assms
  show "markFailed_taskflow i atts mr code err base tnow stamp d = (None, snd (loadData d))"
    by (simp add: markFailed_taskflow_def stored_tasks_def)
qed

lemma findIndex_exists:
  assumes "x \<in> set xs" and "P x"
  shows "\<exists>k. findIndex P xs = Some k"
proof (cases "findIndex P xs")
  case None
  with assms show ?thesis by (simp add: findIndex_None_iff)
next
  case (Some k)
  then show ?thesis by simp
qed

text \<open>
  C5. \<^verbatim>\<open>dead retry <id>\<close> looks for the first task with that identifier whose state is
  \<open>failed\<close>. If there is one, it is reset to \<open>attempts = 0\<close>, \<open>next_run_at\<close> empty and
  \<open>state = waiting\<close> (with \<open>updated_at\<close> refreshed), the other tasks stay as they are, the
  snapshot is saved and the command ends with code \<open>0\<close>. If no task with that identifier
  is \<open>failed\<close> (it is \<open>done\<close>, \<open>waiting\<close>, in any other state, or there is none), the
  command ends with code \<open>1\<close> and saves nothing: the tasks and the configuration a load
  returns are those it returned before.
\<close>

theorem dead_retry_requeues_failed_only:
  "(\<forall>t\<in>set (stored_tasks d). task_id t = i \<and> state t = ''failed'' \<longrightarrow>
      (\<exists>k<length (stored_tasks d).
         task_id (stored_tasks d ! k) = i \<and> state (stored_tasks d ! k) = ''failed'' \<and>
         (\<forall>j<k. \<not> (task_id (stored_tasks d ! j) = i \<and> state (stored_tasks d ! j) = ''failed'')) \<and>
         fst (dead_retry i now d) = 0 \<and>
         content (snd (dead_retry i now d)) =
           Canonical
             ((stored_tasks d)[k := (stored_tasks d ! k)\<lparr>state := ''waiting'', attempts := 0,
                                       next_run_at := None, updated_at := Some now\<rparr>])
             (Some (config (fst (loadData d))))))
   \<and> ((\<forall>t\<in>set (stored_tasks d). task_id t = i \<longrightarrow> state t \<noteq> ''failed'') \<longrightarrow>
        dead_retry i now d = (1, snd (loadData d)) \<and>
        fst (loadData (snd (dead_retry i now d))) = fst (loadData d) \<and>
        (\<not> is_legacy (content d) \<longrightarrow> snd (dead_retry i now d) = d))"
proof (intro conjI ballI impI)
  fix t
  assume t: "t \<in> set (stored_tasks d)" "task_id t = i \<and> state t = ''failed''"
  obtain data d1 where l: "loadData d = (data, d1)" by (cases "loadData d")
  then have st: "stored_tasks d = tasks data" by (rule loadData_stored)
  from findIndex_exists [of t "stored_tasks d" "\<lambda>t. task_id t = i \<and> state t = ''failed''"] t
  obtain k where k: "findIndex (\<lambda>t. task_id t = i \<and> state t = ''failed'') (tasks data) = Some k"
    by (auto simp: st)
  from findIndex_Some [OF k]
  have p: "k < length (tasks data)"
    "task_id (tasks data ! k) = i \<and> state (tasks data ! k) = ''failed''"
    "\<forall>j<k. \<not> (task_id (tasks data ! j) = i \<and> state (tasks data ! j) = ''failed'')"
    by blast+
  from p l show "\<exists>k<length (stored_tasks d).
         task_id (stored_tasks d ! k) = i \<and> state (stored_tasks d ! k) = ''failed'' \<and>
         (\<forall>j<k. \<not> (task_id (stored_tasks d ! j) = i \<and> state (stored_tasks d ! j) = ''failed'')) \<and>
         fst (dead_retry i now d) = 0 \<and>
         content (snd (dead_retry i now d)) =
           Canonical
             ((stored_tasks d)[k := (stored_tasks d ! k)\<lparr>state := ''waiting'', attempts := 0,
                                       next_run_at := None, updated_at := Some now\<rparr>])
             (Some (config (fst (loadData d))))"
    by (intro exI [of _ k]) (simp add: st dead_retry_found [OF l k] saveData_def)
next
  assume none: "\<forall>t\<in>set (stored_tasks d). task_id t = i \<longrightarrow> state t \<noteq> ''failed''"
  then have "findIndex (\<lambda>t. task_id t = i \<and> state t = ''failed'') (stored_tasks d) = None"
    by (simp add: findIndex_None_iff)
  then have r: "dead_retry i now d = (1, snd (loadData d))"
    by (rule dead_retry_missing)
  then show "dead_retry i now d = (1, snd (loadData d))" .
  from r show "fst (loadData (snd (dead_retry i now d))) = fst (loadData d)"
    by (simp add: loadData_again)
  from r show "snd (dead_retry i now d) = d" if "\<not> is_legacy (content d)"
    using that by (simp add: loadData_not_legacy)
qed

theorem dead_retry_requeues_failed_only_witness:
  "task_f \<in> set (stored_tasks store_af) \<and> task_id task_f = ''f'' \<and> state task_f = ''failed''
   \<and> dead_retry ''f'' 20 store_af =
       (0, \<lparr>content = Canonical
               [task_a, task_f\<lparr>state := ''waiting'', attempts := 0, next_run_at := None,
                                updated_at := Some 20\<rparr>] (Some DEFAULT_CONF),
            writes = 1\<rparr>)
   \<and> task_a \<in> set (stored_tasks store_af) \<and> task_id task_a = ''a'' \<and> state task_a = ''waiting''
   \<and> dead_retry ''a'' 20 store_af = (1, store_af)"
proof -
  have st: "stored_tasks store_af = [task_a, task_f]"
    by (simp add: stored_tasks_def loadData_def store_af_def)
  have ld: "loadData store_af = (\<lparr>tasks = [task_a, task_f], config = DEFAULT_CONF\<rparr>, store_af)"
    by (simp add: loadData_def store_af_def)
  have f: "task_id task_f = ''f''" "state task_f = ''failed''"
    and a: "task_id task_a = ''a''" "state task_a = ''waiting''"
    by (simp_all add: task_f_def task_a_def)
  have nl: "\<not> is_legacy (content store_af)" by (simp add: store_af_def)
  have mem: "task_f \<in> set (stored_tasks store_af)" by (simp add: st)
  from dead_retry_requeues_failed_only [of store_af "''f''" 20]
  have "\<forall>t\<in>set (stored_tasks store_af). task_id t = ''f'' \<and> state t = ''failed'' \<longrightarrow>
      (\<exists>k<length (stored_tasks store_af).
         task_id (stored_tasks store_af ! k) = ''f'' \<and> state (stored_tasks store_af ! k) = ''failed'' \<and>
         (\<forall>j<k. \<not> (task_id (stored_tasks store_af ! j) = ''f'' \<and> state (stored_tasks store_af ! j) = ''failed'')) \<and>
         fst (dead_retry ''f'' 20 store_af) = 0 \<and>
         content (snd (dead_retry ''f'' 20 store_af)) =
           Canonical
             ((stored_tasks store_af)[k := (stored_tasks store_af ! k)\<lparr>state := ''waiting'', attempts := 0,
                                       next_run_at := None, updated_at := Some 20\<rparr>])
             (Some (config (fst (loadData store_af)))))"
    by (rule conjunct1)
  from this [rule_format, of task_f] mem f
  obtain k where k: "k < length (stored_tasks store_af)"
      "task_id (stored_tasks store_af ! k) = ''f''"
    and r: "fst (dead_retry ''f'' 20 store_af) = 0"
      "content (snd (dead_retry ''f'' 20 store_af)) =
           Canonical
             ((stored_tasks store_af)[k := (stored_tasks store_af ! k)\<lparr>state := ''waiting'', attempts := 0,
                                       next_run_at := None, updated_at := Some 20\<rparr>])
             (Some (config (fst (loadData store_af))))"
    by blast
  have k1: "k = 1"
  proof (cases k)
    case 0
    with k a show ?thesis by (simp add: st)
  next
    case (Suc m)
    with k show ?thesis by (simp add: st)
  qed
  have w0: "writes store_af = 0" by (simp add: store_af_def)
  have w: "writes (snd (dead_retry ''f'' 20 store_af)) = 1"
    by (simp add: dead_retry_def ld f a saveData_def w0)
  from r k1 w st ld have ok: "dead_retry ''f'' 20 store_af =
       (0, \<lparr>content = Canonical
               [task_a, task_f\<lparr>state := ''waiting'', attempts := 0, next_run_at := None,
                                updated_at := Some 20\<rparr>] (Some DEFAULT_CONF),
            writes = 1\<rparr>)"
    by (cases "dead_retry ''f'' 20 store_af") (simp add: disk.equality)
  from dead_retry_requeues_failed_only [of store_af "''a''" 20] st f a nl
  have rej: "dead_retry ''a'' 20 store_af = (1, store_af)"
    by (simp add: loadData_not_legacy)
  from ok rej st f a show ?thesis by simp
qed

text \<open>
  C10, as the code has it. For an identifier that no task of the loaded snapshot carries,
  \<^verbatim>\<open>markDone\<close> and both versions of \<^verbatim>\<open>markFailed\<close> return before \<^verbatim>\<open>saveData\<close> and before
  any date is computed, so that nothing is raised: the store
  is as \<^verbatim>\<open>loadData\<close> leaves it. That is the store unchanged, with no write, when the file
  is missing, unusable or canonical; a file of the legacy schema has been migrated and
  written once by the load, and holds the tasks that load returned.
\<close>

theorem mark_unknown_id:
  assumes "\<forall>t\<in>set (stored_tasks d). task_id t \<noteq> i"
  shows "markDone i now d = snd (loadData d)
       \<and> markFailed i atts mr code err base tnow stamp d = (None, snd (loadData d))
       \<and> markFailed_taskflow i atts mr code err base tnow stamp d = (None, snd (loadData d))
       \<and> fst (loadData (snd (loadData d))) = fst (loadData d)
       \<and> (\<not> is_legacy (content d) \<longrightarrow> snd (loadData d) = d)
       \<and> (is_legacy (content d) \<longrightarrow> writes (snd (loadData d)) = writes d + 1)"
proof -
  from assms have "findIndex (\<lambda>t. task_id t = i) (stored_tasks d) = None"
    by (simp add: findIndex_None_iff)
  then have "markDone i now d = snd (loadData d)"
    "markFailed i atts mr code err base tnow stamp d = (None, snd (loadData d))"
    "markFailed_taskflow i atts mr code err base tnow stamp d = (None, snd (loadData d))"
    by (rule mark_missing)+
  moreover have "is_legacy (content d) \<longrightarrow> writes (snd (loadData d)) = writes d + 1"
    by (cases "content d") (simp_all add: loadData_def saveData_def Let_def)
  ultimately show ?thesis
    by (simp add: loadData_again loadData_not_legacy)
qed

theorem mark_unknown_id_witness:
  "''zz'' \<notin> set (map task_id (stored_tasks store_abc))
   \<and> markDone ''zz'' 30 store_abc = store_abc
   \<and> markFailed ''zz'' 0 3 1 ''Exit 1'' 2 30 31 store_abc = (None, store_abc)
   \<and> markFailed_taskflow ''zz'' 0 3 1 ''Exit 1'' 2 30 31 store_abc = (None, store_abc)"
proof -
  have ids: "map task_id (stored_tasks store_abc) = [''a'', ''b'', ''c'']"
    by (simp add: stored_tasks_def loadData_def store_abc_def task_a_def task_b_def task_c_def)
  have h: "\<forall>t\<in>set (stored_tasks store_abc). task_id t \<noteq> ''zz''"
  proof
    fix t
    assume "t \<in> set (stored_tasks store_abc)"
    then have "task_id t \<in> set (map task_id (stored_tasks store_abc))" by simp
    then have "task_id t \<in> set [''a'', ''b'', ''c'']" by (simp only: ids)
    then show "task_id t \<noteq> ''zz''" by auto
  qed
  have nl: "\<not> is_legacy (content store_abc)" by (simp add: store_abc_def)
  from mark_unknown_id [OF h] nl ids show ?thesis by simp
qed

theorem markDone_legacy_write_counterexample:
  "''zz'' \<notin> set (map task_id (stored_tasks legacy_store))
   \<and> markDone ''zz'' 30 legacy_store \<noteq> legacy_store
   \<and> writes (markDone ''zz'' 30 legacy_store) = writes legacy_store + 1
   \<and> fst (markFailed ''zz'' 0 3 1 ''Exit 1'' 2 30 31 legacy_store) = None
   \<and> snd (markFailed ''zz'' 0 3 1 ''Exit 1'' 2 30 31 legacy_store) \<noteq> legacy_store
   \<and> writes (snd (markFailed ''zz'' 0 3 1 ''Exit 1'' 2 30 31 legacy_store)) =
       writes legacy_store + 1"
  by (simp add: legacy_store_def job_done_def job_pending_def stored_tasks_def loadData_def
      saveData_def Let_def migrate_job_def markDone_def markFailed_def)


section \<open>The attempts counter and task identifiers\<close>

lemma markDone_found:
  assumes "loadData d = (data, d1)"
    and "findIndex (\<lambda>t. task_id t = i) (tasks data) = Some k"
  shows "markDone i now d =
     saveData (data\<lparr>tasks := (tasks data)
       [k := (tasks data ! k)\<lparr>state := ''done'', exit_code := Some 0,
                                updated_at := Some now\<rparr>]\<rparr>) d1"
  using assms by (simp add: markDone_def)

lemma claimTask_shape:
  assumes "loadData d = (data, d1)"
  shows "claimTask now now2 d = (None, d1) \<or>
         (\<exists>i<length (tasks data).
            claimTask now now2 d =
              (Some ((tasks data ! i)\<lparr>state := ''running'', updated_at := Some now2\<rparr>),
               saveData (data\<lparr>tasks := (tasks data)
                  [i := (tasks data ! i)\<lparr>state := ''running'', updated_at := Some now2\<rparr>]\<rparr>) d1))"
proof (cases "sort_key (\<lambda>(i, t). created_key (created_at t))
               (filter (\<lambda>(i, t). eligible now t) (enumerate 0 (tasks data)))")
  case Nil
  with assms show ?thesis by (simp add: claimTask_def)
next
  case (Cons p rest)
  obtain i u where p: "p = (i, u)" by (cases p)
  from claim_pick [OF Cons [unfolded p]]
  have iu: "i < length (tasks data)" "u = tasks data ! i" by blast+
  from assms Cons p have "claimTask now now2 d =
      (Some (u\<lparr>state := ''running'', updated_at := Some now2\<rparr>),
       saveData (data\<lparr>tasks := (tasks data)[i := u\<lparr>state := ''running'', updated_at := Some now2\<rparr>]\<rparr>) d1)"
    by (simp add: claimTask_def Let_def)
  with iu show ?thesis by blast
qed

lemma map_attempts_update:
  assumes "k < length xs" and "attempts y = n"
  shows "map attempts (xs[k := y]) = (map attempts xs)[k := n]"
  using assms by (simp add: map_update)

lemma map_attempts_same:
  assumes "k < length xs" and "attempts y = attempts (xs ! k)"
  shows "map attempts (xs[k := y]) = map attempts xs"
  using assms by (simp add: map_update list_update_same_conv)

lemma claimTask_attempts:
  "map attempts (stored_tasks (snd (claimTask now now2 d))) = map attempts (stored_tasks d)"
proof -
  obtain data d1 where l: "loadData d = (data, d1)" by (cases "loadData d")
  from claimTask_shape [OF l, of now now2] show ?thesis
  proof
    assume "claimTask now now2 d = (None, d1)"
    with l show ?thesis using stored_tasks_loaded [of d] by simp
  next
    assume "\<exists>i<length (tasks data).
            claimTask now now2 d =
              (Some ((tasks data ! i)\<lparr>state := ''running'', updated_at := Some now2\<rparr>),
               saveData (data\<lparr>tasks := (tasks data)
                  [i := (tasks data ! i)\<lparr>state := ''running'', updated_at := Some now2\<rparr>]\<rparr>) d1)"
    then obtain i where i: "i < length (tasks data)"
      and c: "claimTask now now2 d =
              (Some ((tasks data ! i)\<lparr>state := ''running'', updated_at := Some now2\<rparr>),
               saveData (data\<lparr>tasks := (tasks data)
                  [i := (tasks data ! i)\<lparr>state := ''running'', updated_at := Some now2\<rparr>]\<rparr>) d1)"
      by blast
    show ?thesis
      by (simp add: c stored_tasks_saveData loadData_stored [OF l] map_attempts_same [OF i])
  qed
qed

lemma markDone_attempts:
  "map attempts (stored_tasks (markDone i now d)) = map attempts (stored_tasks d)"
proof -
  obtain data d1 where l: "loadData d = (data, d1)" by (cases "loadData d")
  show ?thesis
  proof (cases "findIndex (\<lambda>t. task_id t = i) (tasks data)")
    case None
    then have "findIndex (\<lambda>t. task_id t = i) (stored_tasks d) = None"
      by (simp add: loadData_stored [OF l])
    then show ?thesis by (simp add: mark_missing stored_tasks_loaded)
  next
    case (Some k)
    from findIndex_Some [OF Some] have k: "k < length (tasks data)" by simp
    show ?thesis
      by (simp add: markDone_found [OF l Some] stored_tasks_saveData loadData_stored [OF l]
          map_attempts_same [OF k])
  qed
qed

lemma markFailed_attempts:
  assumes "findIndex (\<lambda>t. task_id t = i) (stored_tasks d) = Some k"
  shows "fst (markFailed i atts mr code err base tnow stamp d) = None \<Longrightarrow>
         map attempts (stored_tasks (snd (markFailed i atts mr code err base tnow stamp d))) =
           (map attempts (stored_tasks d))[k := atts + 1]"
    and "fst (markFailed_taskflow i atts mr code err base tnow stamp d) = None \<Longrightarrow>
         map attempts (stored_tasks (snd (markFailed_taskflow i atts mr code err base tnow stamp d))) =
           (map attempts (stored_tasks d))[k := atts + 1]"
proof -
  obtain data d1 where l: "loadData d = (data, d1)" by (cases "loadData d")
  from assms have f: "findIndex (\<lambda>t. task_id t = i) (tasks data) = Some k"
    by (simp add: loadData_stored [OF l])
  show "map attempts (stored_tasks (snd (markFailed i atts mr code err base tnow stamp d))) =
           (map attempts (stored_tasks d))[k := atts + 1]"
    if "fst (markFailed i atts mr code err base tnow stamp d) = None"
    using that
    by (simp add: markFailed_found [OF l f] stored_tasks_saveData loadData_stored [OF l]
        map_update split: if_splits)
  show "map attempts (stored_tasks (snd (markFailed_taskflow i atts mr code err base tnow stamp d))) =
           (map attempts (stored_tasks d))[k := atts + 1]"
    if "fst (markFailed_taskflow i atts mr code err base tnow stamp d) = None"
    using that
    by (simp add: markFailed_taskflow_found [OF l f] stored_tasks_saveData loadData_stored [OF l]
        map_update split: if_splits)
qed

lemma dead_retry_attempts:
  "findIndex (\<lambda>t. task_id t = i \<and> state t = ''failed'') (stored_tasks d) = Some k \<Longrightarrow>
     map attempts (stored_tasks (snd (dead_retry i now d))) = (map attempts (stored_tasks d))[k := 0]"
  "findIndex (\<lambda>t. task_id t = i \<and> state t = ''failed'') (stored_tasks d) = None \<Longrightarrow>
     map attempts (stored_tasks (snd (dead_retry i now d))) = map attempts (stored_tasks d)"
proof -
  obtain data d1 where l: "loadData d = (data, d1)" by (cases "loadData d")
  show "map attempts (stored_tasks (snd (dead_retry i now d))) = (map attempts (stored_tasks d))[k := 0]"
    if "findIndex (\<lambda>t. task_id t = i \<and> state t = ''failed'') (stored_tasks d) = Some k"
  proof -
    from that have f: "findIndex (\<lambda>t. task_id t = i \<and> state t = ''failed'') (tasks data) = Some k"
      by (simp add: loadData_stored [OF l])
    show ?thesis
      by (simp add: dead_retry_found [OF l f] stored_tasks_saveData loadData_stored [OF l] map_update)
  qed
  show "map attempts (stored_tasks (snd (dead_retry i now d))) = map attempts (stored_tasks d)"
    if "findIndex (\<lambda>t. task_id t = i \<and> state t = ''failed'') (stored_tasks d) = None"
    using that by (simp add: dead_retry_missing stored_tasks_loaded)
qed

lemma loadData_attempts:
  "content d = Canonical ts c \<Longrightarrow> stored_tasks d = ts"
  "content d = Legacy jobs c \<Longrightarrow> k < length jobs \<Longrightarrow> j_attempts (jobs ! k) = Some a \<Longrightarrow>
     attempts (stored_tasks d ! k) = a"
  by (simp_all add: stored_tasks_def loadData_def Let_def migrate_job_def)

lemma addTaskObject_refused:
  "truthy_str (p_command p) = None \<Longrightarrow> addTaskObject p fresh now d = Inl MissingCommand"
  by (simp add: addTaskObject_def)

lemma addTaskObject_replace:
  assumes "truthy_str (p_command p) = Some cmd"
    and "loadData d = (data, d1)"
    and "i = (case truthy_str (p_id p) of Some x \<Rightarrow> x | None \<Rightarrow> fresh)"
    and "findIndex (\<lambda>t. task_id t = i) (tasks data) = Some k"
  shows "addTaskObject p fresh now d =
           Inr (i, saveData (data\<lparr>tasks := (tasks data)
                    [k := new_entry p i cmd now (config data)]\<rparr>) d1)"
  using assms by (simp add: addTaskObject_def Let_def)

lemma addTaskObject_append:
  assumes "truthy_str (p_command p) = Some cmd"
    and "loadData d = (data, d1)"
    and "i = (case truthy_str (p_id p) of Some x \<Rightarrow> x | None \<Rightarrow> fresh)"
    and "findIndex (\<lambda>t. task_id t = i) (tasks data) = None"
  shows "addTaskObject p fresh now d =
           Inr (i, saveData (data\<lparr>tasks := tasks data @ [new_entry p i cmd now (config data)]\<rparr>) d1)"
  using assms by (simp add: addTaskObject_def Let_def)

lemma new_entry_id: "task_id (new_entry p i cmd now cf) = i"
  by (simp add: new_entry_def)

lemma addTaskObject_attempts:
  assumes "addTaskObject p fresh now d = Inr (i, d')"
  shows "findIndex (\<lambda>t. task_id t = i) (stored_tasks d) = Some k \<Longrightarrow>
         map attempts (stored_tasks d') =
           (map attempts (stored_tasks d))[k := (case p_attempts p of Some a \<Rightarrow> a | None \<Rightarrow> 0)]"
    and "findIndex (\<lambda>t. task_id t = i) (stored_tasks d) = None \<Longrightarrow>
         map attempts (stored_tasks d') =
           map attempts (stored_tasks d) @ [case p_attempts p of Some a \<Rightarrow> a | None \<Rightarrow> 0]"
proof -
  obtain data d1 where l: "loadData d = (data, d1)" by (cases "loadData d")
  have st: "stored_tasks d = tasks data" by (rule loadData_stored [OF l])
  from assms obtain cmd where cmd: "truthy_str (p_command p) = Some cmd"
    by (cases "truthy_str (p_command p)") (simp_all add: addTaskObject_def)
  define j where "j = (case truthy_str (p_id p) of Some x \<Rightarrow> x | None \<Rightarrow> fresh)"
  have at: "attempts (new_entry p j cmd now (config data)) =
      (case p_attempts p of Some a \<Rightarrow> a | None \<Rightarrow> 0)"
    by (simp add: new_entry_def)
  have res: "i = j \<and>
      (case findIndex (\<lambda>t. task_id t = j) (tasks data) of
         Some k' \<Rightarrow> d' = saveData (data\<lparr>tasks := (tasks data)
                           [k' := new_entry p j cmd now (config data)]\<rparr>) d1
       | None \<Rightarrow> d' = saveData (data\<lparr>tasks := tasks data @
                           [new_entry p j cmd now (config data)]\<rparr>) d1)"
  proof (cases "findIndex (\<lambda>t. task_id t = j) (tasks data)")
    case None
    from addTaskObject_append [OF cmd l j_def None, of now] assms None show ?thesis by simp
  next
    case (Some k')
    from addTaskObject_replace [OF cmd l j_def Some, of now] assms Some show ?thesis by simp
  qed
  show "map attempts (stored_tasks d') =
           (map attempts (stored_tasks d))[k := (case p_attempts p of Some a \<Rightarrow> a | None \<Rightarrow> 0)]"
    if "findIndex (\<lambda>t. task_id t = i) (stored_tasks d) = Some k"
    using that res by (simp add: st stored_tasks_saveData map_update at)
  show "map attempts (stored_tasks d') =
           map attempts (stored_tasks d) @ [case p_attempts p of Some a \<Rightarrow> a | None \<Rightarrow> 0]"
    if "findIndex (\<lambda>t. task_id t = i) (stored_tasks d) = None"
    using that res by (simp add: st stored_tasks_saveData at)
qed

lemma initData_attempts: "stored_tasks (initData d) = stored_tasks d"
  by (simp add: initData_def stored_tasks_def loadData_def saveData_def empty_dataset_def)

text \<open>
  C8, as the code has it. The counter \<open>attempts\<close> of every stored task, position by
  position: \<^verbatim>\<open>claimTask\<close>, \<^verbatim>\<open>markDone\<close>, \<^verbatim>\<open>loadData\<close> and \<^verbatim>\<open>initData\<close> leave it as it
  is (a canonical file is returned as it stands, a legacy job keeps the count it has, a
  second load changes nothing); a failure scored with the current count of the task
  found, when the call returns without raising, raises that count by one and no other,
  in both versions of \<^verbatim>\<open>markFailed\<close>; \<^verbatim>\<open>dead retry\<close> sets the count of the task it requeues
  to \<open>0\<close> and no other, and changes none when it rejects; an \<^verbatim>\<open>add\<close> that carries the
  identifier of a stored task puts the count of its payload, \<open>0\<close> when it has none, in
  the place of that task's count and changes no other, and an \<^verbatim>\<open>add\<close> with a new
  identifier appends its count. A scoring that raises is not part of this statement.
\<close>

theorem attempts_changed_by_scoring_requeue_and_replacement:
  "map attempts (stored_tasks (snd (claimTask now now2 d))) = map attempts (stored_tasks d)
   \<and> map attempts (stored_tasks (markDone i now d)) = map attempts (stored_tasks d)
   \<and> map attempts (stored_tasks (snd (loadData d))) = map attempts (stored_tasks d)
   \<and> map attempts (stored_tasks (initData d)) = map attempts (stored_tasks d)
   \<and> (\<forall>ts c. content d = Canonical ts c \<longrightarrow> stored_tasks d = ts)
   \<and> (\<forall>jobs c k a. content d = Legacy jobs c \<and> k < length jobs \<and> j_attempts (jobs ! k) = Some a
         \<longrightarrow> attempts (stored_tasks d ! k) = a)
   \<and> (\<forall>k. findIndex (\<lambda>t. task_id t = i) (stored_tasks d) = Some k \<longrightarrow>
         (fst (markFailed i (attempts (stored_tasks d ! k)) mr code err base tnow stamp d) = None \<longrightarrow>
          map attempts (stored_tasks (snd
             (markFailed i (attempts (stored_tasks d ! k)) mr code err base tnow stamp d))) =
           (map attempts (stored_tasks d))[k := attempts (stored_tasks d ! k) + 1]) \<and>
         (fst (markFailed_taskflow i (attempts (stored_tasks d ! k)) mr code err base tnow stamp d) = None \<longrightarrow>
          map attempts (stored_tasks (snd
             (markFailed_taskflow i (attempts (stored_tasks d ! k)) mr code err base tnow stamp d))) =
           (map attempts (stored_tasks d))[k := attempts (stored_tasks d ! k) + 1]))
   \<and> (\<forall>k. findIndex (\<lambda>t. task_id t = i \<and> state t = ''failed'') (stored_tasks d) = Some k \<longrightarrow>
         map attempts (stored_tasks (snd (dead_retry i now d))) =
           (map attempts (stored_tasks d))[k := 0])
   \<and> (findIndex (\<lambda>t. task_id t = i \<and> state t = ''failed'') (stored_tasks d) = None \<longrightarrow>
         map attempts (stored_tasks (snd (dead_retry i now d))) = map attempts (stored_tasks d))
   \<and> (\<forall>j d'. addTaskObject p fresh now d = Inr (j, d') \<longrightarrow>
         (\<forall>k. findIndex (\<lambda>t. task_id t = j) (stored_tasks d) = Some k \<longrightarrow>
            map attempts (stored_tasks d') =
              (map attempts (stored_tasks d))
                [k := (case p_attempts p of Some a \<Rightarrow> a | None \<Rightarrow> 0)]) \<and>
         (findIndex (\<lambda>t. task_id t = j) (stored_tasks d) = None \<longrightarrow>
            map attempts (stored_tasks d') =
              map attempts (stored_tasks d) @ [case p_attempts p of Some a \<Rightarrow> a | None \<Rightarrow> 0]))"
proof (intro conjI allI impI)
  show "map attempts (stored_tasks (snd (claimTask now now2 d))) = map attempts (stored_tasks d)"
    by (rule claimTask_attempts)
  show "map attempts (stored_tasks (markDone i now d)) = map attempts (stored_tasks d)"
    by (rule markDone_attempts)
  show "map attempts (stored_tasks (snd (loadData d))) = map attempts (stored_tasks d)"
    by (simp add: stored_tasks_loaded)
  show "map attempts (stored_tasks (initData d)) = map attempts (stored_tasks d)"
    by (simp add: initData_attempts)
  show "stored_tasks d = ts" if "content d = Canonical ts c" for ts c
    using that by (rule loadData_attempts)
  show "attempts (stored_tasks d ! k) = a"
    if "content d = Legacy jobs c \<and> k < length jobs \<and> j_attempts (jobs ! k) = Some a"
    for jobs c k a
    using that loadData_attempts(2) by blast
  show "map attempts (stored_tasks (snd
             (markFailed i (attempts (stored_tasks d ! k)) mr code err base tnow stamp d))) =
           (map attempts (stored_tasks d))[k := attempts (stored_tasks d ! k) + 1]"
    if "findIndex (\<lambda>t. task_id t = i) (stored_tasks d) = Some k"
      and "fst (markFailed i (attempts (stored_tasks d ! k)) mr code err base tnow stamp d) = None"
    for k
    using that by (rule markFailed_attempts)
  show "map attempts (stored_tasks (snd
             (markFailed_taskflow i (attempts (stored_tasks d ! k)) mr code err base tnow stamp d))) =
           (map attempts (stored_tasks d))[k := attempts (stored_tasks d ! k) + 1]"
    if "findIndex (\<lambda>t. task_id t = i) (stored_tasks d) = Some k"
      and "fst (markFailed_taskflow i (attempts (stored_tasks d ! k)) mr code err base tnow stamp d) = None"
    for k
    using that by (rule markFailed_attempts)
  show "map attempts (stored_tasks (snd (dead_retry i now d))) =
           (map attempts (stored_tasks d))[k := 0]"
    if "findIndex (\<lambda>t. task_id t = i \<and> state t = ''failed'') (stored_tasks d) = Some k" for k
    using that by (rule dead_retry_attempts)
  show "map attempts (stored_tasks (snd (dead_retry i now d))) = map attempts (stored_tasks d)"
    if "findIndex (\<lambda>t. task_id t = i \<and> state t = ''failed'') (stored_tasks d) = None"
    using that by (rule dead_retry_attempts)
  show "map attempts (stored_tasks d') =
              (map attempts (stored_tasks d))
                [k := (case p_attempts p of Some a \<Rightarrow> a | None \<Rightarrow> 0)]"
    if "addTaskObject p fresh now d = Inr (j, d')"
      and "findIndex (\<lambda>t. task_id t = j) (stored_tasks d) = Some k"
    for j d' k
    using that by (rule addTaskObject_attempts)
  show "map attempts (stored_tasks d') =
              map attempts (stored_tasks d) @ [case p_attempts p of Some a \<Rightarrow> a | None \<Rightarrow> 0]"
    if "addTaskObject p fresh now d = Inr (j, d')"
      and "findIndex (\<lambda>t. task_id t = j) (stored_tasks d) = None"
    for j d'
    using that by (rule addTaskObject_attempts)
qed

theorem attempts_changed_by_scoring_requeue_and_replacement_witness:
  "content store_af = Canonical [task_a, task_f] (Some DEFAULT_CONF)
   \<and> findIndex (\<lambda>t. task_id t = ''f'') (stored_tasks store_af) = Some 1
   \<and> findIndex (\<lambda>t. task_id t = ''f'' \<and> state t = ''failed'') (stored_tasks store_af) = Some 1
   \<and> map attempts (stored_tasks store_af) = [0, 3]
   \<and> map attempts (stored_tasks (snd (claimTask 10 11 store_af))) = [0, 3]
   \<and> map attempts (stored_tasks (markDone ''f'' 10 store_af)) = [0, 3]
   \<and> map attempts (stored_tasks (initData store_af)) = [0, 3]
   \<and> fst (markFailed ''f'' 3 3 1 ''Exit 1'' 2 30 31 store_af) = None
   \<and> map attempts (stored_tasks (snd (markFailed ''f'' 3 3 1 ''Exit 1'' 2 30 31 store_af))) = [0, 4]
   \<and> fst (markFailed_taskflow ''f'' 3 3 1 ''Exit 1'' 2 30 31 store_af) = None
   \<and> map attempts (stored_tasks (snd (markFailed_taskflow ''f'' 3 3 1 ''Exit 1'' 2 30 31 store_af)))
       = [0, 4]
   \<and> map attempts (stored_tasks (snd (dead_retry ''f'' 10 store_af))) = [0, 0]
   \<and> addTaskObject payload_f ''fresh-id'' 10 store_af =
       Inr (''f'', \<lparr>content = Canonical
                     [task_a, new_entry payload_f ''f'' ''false'' 10 DEFAULT_CONF]
                     (Some DEFAULT_CONF),
                   writes = 1\<rparr>)
   \<and> map attempts (stored_tasks
         \<lparr>content = Canonical [task_a, new_entry payload_f ''f'' ''false'' 10 DEFAULT_CONF]
                      (Some DEFAULT_CONF),
          writes = 1\<rparr>) = [0, 0]
   \<and> content legacy_store = Legacy [job_done, job_pending] None
   \<and> j_attempts ([job_done, job_pending] ! 0) = Some 1
   \<and> attempts (stored_tasks legacy_store ! 0) = 1
   \<and> findIndex (\<lambda>t. task_id t = ''zz'' \<and> state t = ''failed'') (stored_tasks legacy_store) = None
   \<and> map attempts (stored_tasks (snd (dead_retry ''zz'' 10 legacy_store))) =
       map attempts (stored_tasks legacy_store)"
proof -
  let ?dF = "\<lparr>content = Canonical [task_a, new_entry payload_f ''f'' ''false'' 10 DEFAULT_CONF]
                          (Some DEFAULT_CONF),
              writes = 1\<rparr>"
  have c: "content store_af = Canonical [task_a, task_f] (Some DEFAULT_CONF)"
    by (simp add: store_af_def)
  have ld: "loadData store_af = (\<lparr>tasks = [task_a, task_f], config = DEFAULT_CONF\<rparr>, store_af)"
    by (simp add: loadData_def store_af_def)
  have st: "stored_tasks store_af = [task_a, task_f]"
    by (simp add: stored_tasks_def ld)
  have at: "attempts task_a = 0" "attempts task_f = 3"
    by (simp_all add: task_a_def task_f_def)
  have f1: "findIndex (\<lambda>t. task_id t = ''f'') (stored_tasks store_af) = Some 1"
    by (simp add: st task_a_def task_f_def)
  have f2: "findIndex (\<lambda>t. task_id t = ''f'' \<and> state t = ''failed'') (stored_tasks store_af) = Some 1"
    by (simp add: st task_a_def task_f_def)
  have ok: "fst (markFailed ''f'' 3 3 1 ''Exit 1'' 2 30 31 store_af) = None"
    "fst (markFailed_taskflow ''f'' 3 3 1 ''Exit 1'' 2 30 31 store_af) = None"
    by (simp_all add: markFailed_def markFailed_taskflow_def ld task_a_def task_f_def)
  have w0: "writes store_af = 0" by (simp add: store_af_def)
  have add: "addTaskObject payload_f ''fresh-id'' 10 store_af = Inr (''f'', ?dF)"
    by (simp add: addTaskObject_def payload_f_def ld task_a_def task_f_def saveData_def
        Let_def w0)
  note A = attempts_changed_by_scoring_requeue_and_replacement
             [where d = store_af and i = "''f''" and now = 10 and ?now2.0 = 11
                and mr = 3 and code = 1 and err = "''Exit 1''" and base = 2
                and tnow = 30 and stamp = 31 and p = payload_f and fresh = "''fresh-id''"]
  from A have a1: "map attempts (stored_tasks (snd (claimTask 10 11 store_af))) = [0, 3]"
    by (simp add: st at)
  from A have a2: "map attempts (stored_tasks (markDone ''f'' 10 store_af)) = [0, 3]"
    by (simp add: st at)
  from A have a0: "map attempts (stored_tasks (initData store_af)) = [0, 3]"
    by (simp add: st at)
  from A f1 ok have a3:
    "map attempts (stored_tasks (snd (markFailed ''f'' 3 3 1 ''Exit 1'' 2 30 31 store_af))) = [0, 4]"
    "map attempts (stored_tasks (snd (markFailed_taskflow ''f'' 3 3 1 ''Exit 1'' 2 30 31 store_af)))
       = [0, 4]"
    by (simp_all add: st at)
  from A f2 have a4: "map attempts (stored_tasks (snd (dead_retry ''f'' 10 store_af))) = [0, 0]"
    by (simp add: st at)
  from A have "\<forall>j d'. addTaskObject payload_f ''fresh-id'' 10 store_af = Inr (j, d') \<longrightarrow>
         (\<forall>k. findIndex (\<lambda>t. task_id t = j) (stored_tasks store_af) = Some k \<longrightarrow>
            map attempts (stored_tasks d') =
              (map attempts (stored_tasks store_af))
                [k := (case p_attempts payload_f of Some a \<Rightarrow> a | None \<Rightarrow> 0)]) \<and>
         (findIndex (\<lambda>t. task_id t = j) (stored_tasks store_af) = None \<longrightarrow>
            map attempts (stored_tasks d') =
              map attempts (stored_tasks store_af) @
                [case p_attempts payload_f of Some a \<Rightarrow> a | None \<Rightarrow> 0])"
    by blast
  from this [rule_format, of "''f''" ?dF] add f1
  have "map attempts (stored_tasks ?dF) =
      (map attempts (stored_tasks store_af))
        [1 := (case p_attempts payload_f of Some a \<Rightarrow> a | None \<Rightarrow> 0)]"
    by blast
  then have a5: "map attempts (stored_tasks ?dF) = [0, 0]"
    by (simp add: st at payload_f_def)
  have lc: "content legacy_store = Legacy [job_done, job_pending] None"
    by (simp add: legacy_store_def)
  have ja: "j_attempts ([job_done, job_pending] ! 0) = Some 1"
    by (simp add: job_done_def)
  have f3: "findIndex (\<lambda>t. task_id t = ''zz'' \<and> state t = ''failed'') (stored_tasks legacy_store) = None"
    by (simp add: stored_tasks_def loadData_def legacy_store_def saveData_def Let_def
        migrate_job_def job_done_def job_pending_def)
  note B = attempts_changed_by_scoring_requeue_and_replacement
             [where d = legacy_store and i = "''zz''" and now = 10]
  from B lc ja have b1: "attempts (stored_tasks legacy_store ! 0) = 1"
    by simp
  from B f3 have b2: "map attempts (stored_tasks (snd (dead_retry ''zz'' 10 legacy_store))) =
       map attempts (stored_tasks legacy_store)"
    by simp
  from c f1 f2 st at a0 a1 a2 ok a3 a4 add a5 lc ja b1 f3 b2 show ?thesis by simp
qed

theorem add_replaces_attempts_counterexample:
  "map task_id (stored_tasks store_af) = [''a'', ''f'']
   \<and> map state (stored_tasks store_af) = [''waiting'', ''failed'']
   \<and> map attempts (stored_tasks store_af) = [0, 3]
   \<and> addTaskObject payload_f ''fresh-id'' 10 store_af =
       Inr (''f'', \<lparr>content = Canonical
                     [task_a, new_entry payload_f ''f'' ''false'' 10 DEFAULT_CONF]
                     (Some DEFAULT_CONF),
                   writes = 1\<rparr>)
   \<and> map task_id (stored_tasks
         \<lparr>content = Canonical [task_a, new_entry payload_f ''f'' ''false'' 10 DEFAULT_CONF]
                      (Some DEFAULT_CONF),
          writes = 1\<rparr>) = [''a'', ''f'']
   \<and> map attempts (stored_tasks
         \<lparr>content = Canonical [task_a, new_entry payload_f ''f'' ''false'' 10 DEFAULT_CONF]
                      (Some DEFAULT_CONF),
          writes = 1\<rparr>) = [0, 0]"
  by (simp add: addTaskObject_def payload_f_def loadData_def stored_tasks_def task_a_def
      task_f_def saveData_def store_af_def new_entry_def Let_def)

lemma addTaskObject_distinct:
  assumes cmd: "truthy_str (p_command p) = Some cmd"
    and dist: "distinct (map task_id (stored_tasks d))"
  shows "\<exists>i d'. addTaskObject p fresh now d = Inr (i, d') \<and>
                 distinct (map task_id (stored_tasks d'))"
proof -
  obtain data d1 where l: "loadData d = (data, d1)" by (cases "loadData d")
  from dist have dd: "distinct (map task_id (tasks data))"
    by (simp add: loadData_stored [OF l])
  define i where "i = (case truthy_str (p_id p) of Some x \<Rightarrow> x | None \<Rightarrow> fresh)"
  show ?thesis
  proof (cases "findIndex (\<lambda>t. task_id t = i) (tasks data)")
    case None
    then have "i \<notin> set (map task_id (tasks data))"
      by (auto simp: findIndex_None_iff)
    with dd have "distinct (map task_id (tasks data @ [new_entry p i cmd now (config data)]))"
      by (simp add: new_entry_id)
    then show ?thesis
      by (simp add: addTaskObject_append [OF cmd l i_def None] stored_tasks_saveData)
  next
    case (Some k)
    from findIndex_Some [OF Some] have k: "k < length (tasks data)" "task_id (tasks data ! k) = i"
      by simp_all
    then have "map task_id ((tasks data)[k := new_entry p i cmd now (config data)]) =
               map task_id (tasks data)"
      by (simp add: map_update new_entry_id list_update_same_conv)
    with dd show ?thesis
      by (simp add: addTaskObject_replace [OF cmd l i_def Some] stored_tasks_saveData)
  qed
qed

text \<open>
  C9. An \<^verbatim>\<open>add\<close> whose payload has a command and carries an identifier that a stored
  task already has does not fail and does not append: the new entry, with that
  identifier, takes the place of the first task that has it, the list keeps its length
  and every other position, and the snapshot is saved. Whatever the payload, an \<^verbatim>\<open>add\<close>
  keeps the identifiers of the store distinct when they were: a payload without a command
  is refused before the store is read, and any other is saved with distinct identifiers,
  whether its identifier was given or generated.
\<close>

theorem addTaskObject_replaces_in_place:
  "(\<forall>cmd i t. truthy_str (p_command p) = Some cmd \<and> truthy_str (p_id p) = Some i \<and>
        t \<in> set (stored_tasks d) \<and> task_id t = i \<longrightarrow>
      (\<exists>k<length (stored_tasks d).
         task_id (stored_tasks d ! k) = i \<and>
         (\<forall>j<k. task_id (stored_tasks d ! j) \<noteq> i) \<and>
         task_id (new_entry p i cmd now (config (fst (loadData d)))) = i \<and>
         addTaskObject p fresh now d =
           Inr (i, \<lparr>content = Canonical
                      ((stored_tasks d)[k := new_entry p i cmd now (config (fst (loadData d)))])
                      (Some (config (fst (loadData d)))),
                    writes = writes (snd (loadData d)) + 1\<rparr>)))
   \<and> (truthy_str (p_command p) = None \<longrightarrow> addTaskObject p fresh now d = Inl MissingCommand)
   \<and> (\<forall>cmd. truthy_str (p_command p) = Some cmd \<and> distinct (map task_id (stored_tasks d)) \<longrightarrow>
        (\<exists>i d'. addTaskObject p fresh now d = Inr (i, d') \<and>
                 distinct (map task_id (stored_tasks d'))))"
proof (intro conjI allI impI)
  fix cmd i t
  assume h: "truthy_str (p_command p) = Some cmd \<and> truthy_str (p_id p) = Some i \<and>
        t \<in> set (stored_tasks d) \<and> task_id t = i"
  obtain data d1 where l: "loadData d = (data, d1)" by (cases "loadData d")
  have st: "stored_tasks d = tasks data" by (rule loadData_stored [OF l])
  from h have i: "i = (case truthy_str (p_id p) of Some x \<Rightarrow> x | None \<Rightarrow> fresh)" by simp
  from h findIndex_exists [of t "tasks data" "\<lambda>t. task_id t = i"]
  obtain k where k: "findIndex (\<lambda>t. task_id t = i) (tasks data) = Some k"
    by (auto simp: st)
  from findIndex_Some [OF k]
  have p: "k < length (tasks data)" "task_id (tasks data ! k) = i"
    "\<forall>j<k. task_id (tasks data ! j) \<noteq> i"
    by blast+
  from h have cmd: "truthy_str (p_command p) = Some cmd" by simp
  from p l show "\<exists>k<length (stored_tasks d).
         task_id (stored_tasks d ! k) = i \<and>
         (\<forall>j<k. task_id (stored_tasks d ! j) \<noteq> i) \<and>
         task_id (new_entry p i cmd now (config (fst (loadData d)))) = i \<and>
         addTaskObject p fresh now d =
           Inr (i, \<lparr>content = Canonical
                      ((stored_tasks d)[k := new_entry p i cmd now (config (fst (loadData d)))])
                      (Some (config (fst (loadData d)))),
                    writes = writes (snd (loadData d)) + 1\<rparr>)"
    by (intro exI [of _ k])
      (simp add: st new_entry_id addTaskObject_replace [OF cmd l i k] saveData_def)
next
  assume "truthy_str (p_command p) = None"
  then show "addTaskObject p fresh now d = Inl MissingCommand"
    by (rule addTaskObject_refused)
next
  fix cmd
  assume "truthy_str (p_command p) = Some cmd \<and> distinct (map task_id (stored_tasks d))"
  then show "\<exists>i d'. addTaskObject p fresh now d = Inr (i, d') \<and>
                 distinct (map task_id (stored_tasks d'))"
    using addTaskObject_distinct by blast
qed

theorem addTaskObject_replaces_in_place_witness:
  "truthy_str (p_command payload_b) = Some ''echo again''
   \<and> truthy_str (p_id payload_b) = Some ''b''
   \<and> task_b \<in> set (stored_tasks store_abc)
   \<and> task_id task_b = ''b''
   \<and> distinct (map task_id (stored_tasks store_abc))
   \<and> addTaskObject payload_b ''fresh-id'' 50 store_abc =
       Inr (''b'', \<lparr>content = Canonical
                      [task_a, new_entry payload_b ''b'' ''echo again'' 50 DEFAULT_CONF, task_c]
                      (Some DEFAULT_CONF),
                    writes = 1\<rparr>)
   \<and> (\<exists>i d'. addTaskObject payload_b ''fresh-id'' 50 store_abc = Inr (i, d') \<and>
                distinct (map task_id (stored_tasks d')))
   \<and> truthy_str (p_command (payload_b\<lparr>p_command := None\<rparr>)) = None
   \<and> addTaskObject (payload_b\<lparr>p_command := None\<rparr>) ''fresh-id'' 50 store_abc =
       Inl MissingCommand"
proof -
  have c: "truthy_str (p_command payload_b) = Some ''echo again''"
    and pi: "truthy_str (p_id payload_b) = Some ''b''"
    by (simp_all add: payload_b_def)
  have ld: "loadData store_abc = (\<lparr>tasks = [task_a, task_b, task_c], config = DEFAULT_CONF\<rparr>, store_abc)"
    by (simp add: loadData_def store_abc_def)
  have st: "stored_tasks store_abc = [task_a, task_b, task_c]"
    by (simp add: stored_tasks_def ld)
  have ids: "task_id task_a = ''a''" "task_id task_b = ''b''" "task_id task_c = ''c''"
    by (simp_all add: task_a_def task_b_def task_c_def)
  have mem: "task_b \<in> set (stored_tasks store_abc)" by (simp add: st)
  have dist: "distinct (map task_id (stored_tasks store_abc))" by (simp add: st ids)
  have w0: "writes store_abc = 0" by (simp add: store_abc_def)
  note T = addTaskObject_replaces_in_place [of payload_b store_abc 50 "''fresh-id''"]
  from T have "\<forall>cmd i t. truthy_str (p_command payload_b) = Some cmd \<and>
        truthy_str (p_id payload_b) = Some i \<and>
        t \<in> set (stored_tasks store_abc) \<and> task_id t = i \<longrightarrow>
      (\<exists>k<length (stored_tasks store_abc).
         task_id (stored_tasks store_abc ! k) = i \<and>
         (\<forall>j<k. task_id (stored_tasks store_abc ! j) \<noteq> i) \<and>
         task_id (new_entry payload_b i cmd 50 (config (fst (loadData store_abc)))) = i \<and>
         addTaskObject payload_b ''fresh-id'' 50 store_abc =
           Inr (i, \<lparr>content = Canonical
                      ((stored_tasks store_abc)[k := new_entry payload_b i cmd 50 (config (fst (loadData store_abc)))])
                      (Some (config (fst (loadData store_abc)))),
                    writes = writes (snd (loadData store_abc)) + 1\<rparr>))"
    by (rule conjunct1)
  from this [rule_format, of "''echo again''" "''b''" task_b] c pi mem ids(2)
  obtain k where k: "k < length (stored_tasks store_abc)"
      "task_id (stored_tasks store_abc ! k) = ''b''"
    and r: "addTaskObject payload_b ''fresh-id'' 50 store_abc =
           Inr (''b'', \<lparr>content = Canonical
                      ((stored_tasks store_abc)[k := new_entry payload_b ''b'' ''echo again'' 50 (config (fst (loadData store_abc)))])
                      (Some (config (fst (loadData store_abc)))),
                    writes = writes (snd (loadData store_abc)) + 1\<rparr>)"
    by blast
  have k1: "k = 1"
  proof (cases k)
    case 0
    with k ids show ?thesis by (simp add: st)
  next
    case (Suc m)
    with k ids show ?thesis by (cases m) (simp_all add: st)
  qed
  from r k1 have res: "addTaskObject payload_b ''fresh-id'' 50 store_abc =
       Inr (''b'', \<lparr>content = Canonical
                      [task_a, new_entry payload_b ''b'' ''echo again'' 50 DEFAULT_CONF, task_c]
                      (Some DEFAULT_CONF),
                    writes = 1\<rparr>)"
    by (simp add: st ld w0)
  from T c dist
  have ex: "\<exists>i d'. addTaskObject payload_b ''fresh-id'' 50 store_abc = Inr (i, d') \<and>
                distinct (map task_id (stored_tasks d'))"
    by blast
  have nc: "truthy_str (p_command (payload_b\<lparr>p_command := None\<rparr>)) = None"
    by simp
  from addTaskObject_replaces_in_place
         [of "payload_b\<lparr>p_command := None\<rparr>" store_abc 50 "''fresh-id''"] nc
  have ref: "addTaskObject (payload_b\<lparr>p_command := None\<rparr>) ''fresh-id'' 50 store_abc =
       Inl MissingCommand"
    by blast
  from c pi mem ids(2) dist res ex nc ref show ?thesis by blast
qed


end
